theory Spec2Isabelle
  imports Main "HOL-Library.Word" "HOL-Library.AList" "HOL-Library.Multiset"
begin

section \<open>Flashare transfer engine: a shallow embedding of internal/server/server.go\<close>

text \<open>
  The handlers of \<^verbatim>\<open>server.go\<close> are embedded as functions over an explicit file
  system. Go strings are byte strings (\<open>string\<close>), file contents are byte lists,
  \<^verbatim>\<open>int64\<close> is \<open>64 word\<close>. The Go standard library and the web framework are not
  part of the repository; the few functions of theirs that the handlers call
  (\<^verbatim>\<open>path/filepath\<close>, \<^verbatim>\<open>strings.HasPrefix\<close>, \<^verbatim>\<open>strconv.ParseBool\<close>, \<^verbatim>\<open>%d\<close> of
  \<^verbatim>\<open>fmt.Sprintf\<close>, the \<^verbatim>\<open>os\<close> calls, \<^verbatim>\<open>sort.Slice\<close>, the framework's handling of a
  response after the handler has returned) are written out below after their
  behaviour on a Unix host.
\<close>

type_synonym bytes = "8 word list"

subsection \<open>path/filepath and strings (Unix)\<close>

definition IsPathSeparator :: "char \<Rightarrow> bool" where
  "IsPathSeparator c = (c = CHR ''/'')"

text \<open>\<^verbatim>\<open>strings.HasPrefix(s, prefix)\<close>: \<^verbatim>\<open>len(s) >= len(prefix) && s[:len(prefix)] == prefix\<close>.\<close>

definition HasPrefix :: "string \<Rightarrow> string \<Rightarrow> bool" where
  "HasPrefix s pre = (length pre \<le> length s \<and> take (length pre) s = pre)"

text \<open>The elements of a path: the pieces between separators, empty ones included.\<close>

fun split_path :: "string \<Rightarrow> string list" where
  "split_path [] = [[]]"
| "split_path (c # cs) =
     (if IsPathSeparator c then [] # split_path cs
      else (case split_path cs of
              [] \<Rightarrow> [[c]]
            | w # ws \<Rightarrow> (c # w) # ws))"

fun join_path :: "string list \<Rightarrow> string" where
  "join_path [] = []"
| "join_path [e] = e"
| "join_path (e # es) = e @ ''/'' @ join_path es"

text \<open>
  \<^verbatim>\<open>filepath.Clean\<close> processes the path element by element. \<open>out\<close> is the output
  buffer as a list of elements: empty and \<^verbatim>\<open>.\<close> elements are dropped; \<^verbatim>\<open>..\<close> removes
  the last element written when there is one that is not itself a leading \<^verbatim>\<open>..\<close>
  (the buffer's \<^verbatim>\<open>dotdot\<close> mark), is dropped at the root, and is kept otherwise.
\<close>

definition clean_step :: "bool \<Rightarrow> string list \<Rightarrow> string \<Rightarrow> string list" where
  "clean_step rooted out e =
     (if e = [] \<or> e = ''.'' then out
      else if e = ''..'' then
        (if out \<noteq> [] \<and> last out \<noteq> ''..'' then butlast out
         else if rooted then out
         else out @ [''..''])
      else out @ [e])"

definition Clean :: "string \<Rightarrow> string" where
  "Clean path =
     (if path = [] then ''.''
      else
        let rooted = IsPathSeparator (hd path);
            out = foldl (clean_step rooted) [] (split_path path)
        in if rooted then ''/'' @ join_path out
           else if out = [] then ''.''
           else join_path out)"

text \<open>
  \<^verbatim>\<open>filepath.Join(a, b)\<close>: the elements from the first non-empty one on are joined
  with a separator and cleaned; when all are empty the result is empty.
\<close>

definition Join :: "string \<Rightarrow> string \<Rightarrow> string" where
  "Join a b =
     (if a \<noteq> [] then Clean (a @ ''/'' @ b)
      else if b \<noteq> [] then Clean b
      else [])"

text \<open>
  \<^verbatim>\<open>filepath.Base\<close>: the last element of the path, trailing separators removed
  first; \<^verbatim>\<open>.\<close> for the empty path and \<^verbatim>\<open>/\<close> for a path of separators only.
\<close>

definition Base :: "string \<Rightarrow> string" where
  "Base path =
     (if path = [] then ''.''
      else
        let p = rev (dropWhile IsPathSeparator (rev path));
            b = rev (takeWhile (\<lambda>c. \<not> IsPathSeparator c) (rev p))
        in if b = [] then ''/'' else b)"

text \<open>
  \<^verbatim>\<open>filepath.Ext\<close> scans from the end of the path and stops at a separator; the
  first dot met starts the extension. \<open>ext_scan\<close> takes the reversed path and the
  bytes already passed.
\<close>

fun ext_scan :: "string \<Rightarrow> string \<Rightarrow> string" where
  "ext_scan [] acc = []"
| "ext_scan (c # cs) acc =
     (if IsPathSeparator c then []
      else if c = CHR ''.'' then c # acc
      else ext_scan cs (c # acc))"

definition Ext :: "string \<Rightarrow> string" where
  "Ext path = ext_scan (rev path) []"

text \<open>The verb \<^verbatim>\<open>%d\<close> on the loop counter, which starts at 1 and only grows.\<close>

definition digit_char :: "nat \<Rightarrow> char" where
  "digit_char d = ''0123456789'' ! d"

fun itoa :: "nat \<Rightarrow> string" where
  "itoa n = (if n < 10 then [digit_char n] else itoa (n div 10) @ [digit_char (n mod 10)])"

declare itoa.simps [simp del]

text \<open>
  A plain file name is a single path element that is neither \<^verbatim>\<open>.\<close> nor \<^verbatim>\<open>..\<close>. It
  is used below to say which submitted names stay inside the shared directory.
\<close>

definition plain_name :: "string \<Rightarrow> bool" where
  "plain_name e = (e \<noteq> [] \<and> e \<noteq> ''.'' \<and> e \<noteq> ''..'' \<and> CHR ''/'' \<notin> set e)"

subsection \<open>The file system\<close>

text \<open>
  The directory tree is a finite table from cleaned path names to nodes. A path one
  of whose elements is longer than \<^verbatim>\<open>NAME_MAX\<close> bytes is refused by every call with
  \<^verbatim>\<open>ENAMETOOLONG\<close>. Otherwise \<^verbatim>\<open>os.Stat\<close> succeeds on the names in the table and
  fails with \<^verbatim>\<open>ENOENT\<close> on the others. \<open>os_Stat_error\<close> is the error that
  \<^verbatim>\<open>os.Stat\<close> returns (\<open>None\<close> for \<^verbatim>\<open>nil\<close>), \<open>os_Stat\<close> the file information it
  returns when the error is \<^verbatim>\<open>nil\<close>, and \<open>IsNotExist\<close> is \<^verbatim>\<open>os.IsNotExist\<close>. Failures
  that depend on permissions or on the device are outside the model.
\<close>

datatype node = File bytes | Dir

type_synonym filesystem = "(string \<times> node) list"

datatype errno = ENOENT | ENAMETOOLONG

definition NAME_MAX :: nat where
  "NAME_MAX = 255"

definition name_too_long :: "string \<Rightarrow> bool" where
  "name_too_long path = list_ex (\<lambda>e. NAME_MAX < length e) (split_path path)"

definition os_Stat_error :: "filesystem \<Rightarrow> string \<Rightarrow> errno option" where
  "os_Stat_error fs path =
     (if name_too_long path then Some ENAMETOOLONG
      else if map_of fs path = None then Some ENOENT
      else None)"

definition os_Stat :: "filesystem \<Rightarrow> string \<Rightarrow> node option" where
  "os_Stat fs path = (if os_Stat_error fs path = None then map_of fs path else None)"

definition IsNotExist :: "errno option \<Rightarrow> bool" where
  "IsNotExist err = (err = Some ENOENT)"

text \<open>
  \<^verbatim>\<open>os.Create\<close> opens with \<^verbatim>\<open>O_RDWR|O_CREATE|O_TRUNC\<close>: it needs the parent
  directory, refuses a directory, and empties a file that is already there.
  \<^verbatim>\<open>io.Copy\<close> then writes through the descriptor, from offset 0 and without
  truncating: bytes already in the file beyond the written ones stay, and when the
  path has been unlinked in the meantime nothing appears under it. (A path that was
  unlinked and created again by another writer is taken for the same file.)
  \<^verbatim>\<open>os.Remove\<close> unlinks a file or removes an empty directory.
\<close>

definition parent_dir :: "string \<Rightarrow> string" where
  "parent_dir path =
     (let d = rev (dropWhile (\<lambda>c. \<not> IsPathSeparator c) (rev path))
      in if d = [] then ''.'' else if d = ''/'' then ''/'' else butlast d)"

definition os_Create :: "filesystem \<Rightarrow> string \<Rightarrow> filesystem option" where
  "os_Create fs path =
     (if name_too_long path then None
      else case map_of fs path of
             Some Dir \<Rightarrow> None
           | _ \<Rightarrow> (if map_of fs (parent_dir path) = Some Dir
                   then Some (AList.update path (File []) fs)
                   else None))"

definition write_file :: "filesystem \<Rightarrow> string \<Rightarrow> bytes \<Rightarrow> filesystem" where
  "write_file fs path data =
     (case map_of fs path of
        Some (File old) \<Rightarrow> AList.update path (File (data @ drop (length data) old)) fs
      | _ \<Rightarrow> fs)"

definition has_child :: "filesystem \<Rightarrow> string \<Rightarrow> bool" where
  "has_child fs path = list_ex (\<lambda>e. fst e \<noteq> path \<and> parent_dir (fst e) = path) fs"

definition os_Remove :: "filesystem \<Rightarrow> string \<Rightarrow> filesystem option" where
  "os_Remove fs path =
     (if name_too_long path then None
      else case map_of fs path of
             None \<Rightarrow> None
           | Some (File data) \<Rightarrow> Some (AList.delete path fs)
           | Some Dir \<Rightarrow> (if has_child fs path then None else Some (AList.delete path fs)))"

subsection \<open>Uploads: \<^verbatim>\<open>saveUploadedFile\<close>, \<^verbatim>\<open>handleUpload\<close>, \<^verbatim>\<open>handleUploadMultiple\<close>\<close>

text \<open>
  A \<^verbatim>\<open>multipart.FileHeader\<close>: the submitted name, the bytes of the part, whether
  \<^verbatim>\<open>file.Open()\<close> succeeds, and where \<^verbatim>\<open>io.Copy\<close> fails: \<open>CopyErr = Some n\<close> is an
  I/O error after \<open>n\<close> bytes have reached the destination.
\<close>

record FileHeader =
  fh_Filename :: string
  fh_Data :: bytes
  fh_OpenOk :: bool
  fh_CopyErr :: "nat option"

text \<open>
  \<^verbatim>\<open>UploadResult\<close>. The fields \<^verbatim>\<open>SizeHuman\<close> and \<^verbatim>\<open>Type\<close> are presentation of
  \<open>Size\<close> and \<open>Filename\<close> (a floating-point format and an extension table) and are
  left out.
\<close>

record UploadResult =
  Success :: bool
  Filename :: string
  Size :: "64 word"
  Error :: string

definition upload_failure :: "string \<Rightarrow> string \<Rightarrow> UploadResult" where
  "upload_failure filename msg =
     \<lparr>Success = False, Filename = filename, Size = 0, Error = msg\<rparr>"

text \<open>
  Lines 305-310, the duplicate loop: candidate \<open>i\<close> is
  \<^verbatim>\<open>fmt.Sprintf("%s_%d%s", base, i, ext)\<close>; the loop leaves at the first candidate
  for which \<^verbatim>\<open>os.Stat\<close> fails with a not-exist error, and goes on after any other
  outcome. The source loop has no bound, so not returning is the value \<open>None\<close>.
\<close>

definition candidate :: "string \<Rightarrow> string \<Rightarrow> nat \<Rightarrow> string" where
  "candidate base ext i = base @ ''_'' @ itoa i @ ext"

partial_function (option) dup_loop :: "filesystem \<Rightarrow> string \<Rightarrow> string \<Rightarrow> nat \<Rightarrow> string option" where
  "dup_loop fs base ext i =
     (if IsNotExist (os_Stat_error fs (candidate base ext i)) then Some (candidate base ext i)
      else dup_loop fs base ext (i + 1))"

declare dup_loop.simps [code]

text \<open>
  Lines 298-312: the destination path and the reported file name. The duplicate
  branch is taken when the first \<^verbatim>\<open>os.Stat\<close> returns no error. The result is the
  pair \<open>(destPath, filename)\<close>.
\<close>

definition resolve_name :: "string \<Rightarrow> filesystem \<Rightarrow> string \<Rightarrow> (string \<times> string) option" where
  "resolve_name UploadsDir fs name =
     (let filename = Base name;
          destPath = Join UploadsDir filename
      in if os_Stat fs destPath \<noteq> None then
           (let ext = Ext destPath;
                base = take (length destPath - length ext) destPath
            in case dup_loop fs base ext 1 of
                 None \<Rightarrow> None
               | Some d \<Rightarrow> Some (d, Base d))
         else Some (destPath, filename))"

text \<open>
  Lines 314-341: open the source, create the destination, copy. When the copy fails
  the destination is removed (the error of \<^verbatim>\<open>os.Remove\<close> is dropped by the source).
\<close>

definition remove_ignoring_error :: "filesystem \<Rightarrow> string \<Rightarrow> filesystem" where
  "remove_ignoring_error fs path = (case os_Remove fs path of None \<Rightarrow> fs | Some fs' \<Rightarrow> fs')"

definition store_upload ::
  "filesystem \<Rightarrow> string \<Rightarrow> string \<Rightarrow> FileHeader \<Rightarrow> UploadResult \<times> filesystem" where
  "store_upload fs destPath filename file =
     (if \<not> fh_OpenOk file then (upload_failure filename ''Failed to read file'', fs)
      else case os_Create fs destPath of
             None \<Rightarrow> (upload_failure filename ''Failed to create file'', fs)
           | Some fs1 \<Rightarrow>
               (case fh_CopyErr file of
                  Some n \<Rightarrow>
                    (upload_failure filename ''Failed to save file'',
                     remove_ignoring_error (write_file fs1 destPath (take n (fh_Data file))) destPath)
                | None \<Rightarrow>
                    (\<lparr>Success = True, Filename = filename,
                      Size = of_nat (length (fh_Data file)), Error = []\<rparr>,
                     write_file fs1 destPath (fh_Data file))))"

definition saveUploadedFile ::
  "string \<Rightarrow> filesystem \<Rightarrow> FileHeader \<Rightarrow> (UploadResult \<times> filesystem) option" where
  "saveUploadedFile UploadsDir fs file =
     (case resolve_name UploadsDir fs (fh_Filename file) of
        None \<Rightarrow> None
      | Some (destPath, filename) \<Rightarrow> Some (store_upload fs destPath filename file))"

text \<open>
  \<^verbatim>\<open>handleUpload\<close>: \<open>None\<close> for the form file is the error of \<^verbatim>\<open>c.FormFile\<close>. The
  response is the HTTP status and the result.
\<close>

definition handleUpload ::
  "string \<Rightarrow> filesystem \<Rightarrow> FileHeader option \<Rightarrow> ((nat \<times> UploadResult) \<times> filesystem) option" where
  "handleUpload UploadsDir fs form =
     (case form of
        None \<Rightarrow> Some ((400, upload_failure [] ''No file provided''), fs)
      | Some file \<Rightarrow>
          (case saveUploadedFile UploadsDir fs file of
             None \<Rightarrow> None
           | Some (result, fs') \<Rightarrow>
               Some ((if \<not> Success result then 400 else 200, result), fs')))"

text \<open>
  In a batch every part is saved by a goroutine of its own, and the goroutines
  interleave between their system calls. \<open>upload_task\<close> is the place a goroutine
  has reached in \<^verbatim>\<open>saveUploadedFile\<close>: before the first \<^verbatim>\<open>os.Stat\<close> (line 302); in
  the duplicate loop before the \<^verbatim>\<open>os.Stat\<close> of candidate \<open>i\<close> (line 307); with
  the name resolved, before \<^verbatim>\<open>file.Open\<close> and \<^verbatim>\<open>os.Create\<close> (lines 315-322); with
  the destination created, before \<^verbatim>\<open>io.Copy\<close> (line 329); after a failed copy,
  before \<^verbatim>\<open>os.Remove\<close> (line 331); returned from \<^verbatim>\<open>saveUploadedFile\<close> with a
  result, before the assignment to \<^verbatim>\<open>results[idx]\<close> (line 265); and finished, with
  the result it has stored. \<open>save_step\<close> runs one goroutine up to its next place;
  the copy is one step.
\<close>

datatype upload_task =
  AtStart
  | InLoop string string nat
  | Named string string
  | Copying string string
  | Removing string string
  | Returned UploadResult
  | Joined UploadResult

definition save_step ::
  "string \<Rightarrow> FileHeader \<Rightarrow> upload_task \<Rightarrow> filesystem \<Rightarrow> upload_task \<times> filesystem" where
  "save_step UploadsDir file task fs =
     (case task of
        AtStart \<Rightarrow>
          (let filename = Base (fh_Filename file);
               destPath = Join UploadsDir filename
           in if os_Stat fs destPath \<noteq> None then
                (let ext = Ext destPath
                 in (InLoop (take (length destPath - length ext) destPath) ext 1, fs))
              else (Named destPath filename, fs))
      | InLoop base ext i \<Rightarrow>
          (if IsNotExist (os_Stat_error fs (candidate base ext i))
           then (Named (candidate base ext i) (Base (candidate base ext i)), fs)
           else (InLoop base ext (i + 1), fs))
      | Named destPath filename \<Rightarrow>
          (if \<not> fh_OpenOk file then (Returned (upload_failure filename ''Failed to read file''), fs)
           else case os_Create fs destPath of
                  None \<Rightarrow> (Returned (upload_failure filename ''Failed to create file''), fs)
                | Some fs1 \<Rightarrow> (Copying destPath filename, fs1))
      | Copying destPath filename \<Rightarrow>
          (case fh_CopyErr file of
             Some n \<Rightarrow> (Removing destPath filename, write_file fs destPath (take n (fh_Data file)))
           | None \<Rightarrow>
               (Returned \<lparr>Success = True, Filename = filename,
                          Size = of_nat (length (fh_Data file)), Error = []\<rparr>,
                write_file fs destPath (fh_Data file)))
      | Removing destPath filename \<Rightarrow>
          (Returned (upload_failure filename ''Failed to save file''),
           remove_ignoring_error fs destPath)
      | Returned r \<Rightarrow> (Joined r, fs)
      | Joined r \<Rightarrow> (Joined r, fs))"

text \<open>
  The state of a batch: the places of the goroutines, the \<^verbatim>\<open>results\<close> slice and the
  directory. \<open>sched\<close> names, step by step, the goroutine that runs next; an index
  outside the batch and a finished goroutine do nothing. The step from \<open>Returned r\<close>
  is the assignment \<^verbatim>\<open>results[idx] = r\<close>.
\<close>

fun pool_step ::
  "string \<Rightarrow> FileHeader list \<Rightarrow> nat
     \<Rightarrow> upload_task list \<times> UploadResult list \<times> filesystem
     \<Rightarrow> upload_task list \<times> UploadResult list \<times> filesystem" where
  "pool_step UploadsDir files idx (tasks, results, fs) =
     (if idx < length files then
        (case save_step UploadsDir (files ! idx) (tasks ! idx) fs of
           (task', fs') \<Rightarrow>
             (tasks[idx := task'],
              (case tasks ! idx of Returned r \<Rightarrow> results[idx := r] | _ \<Rightarrow> results),
              fs'))
      else (tasks, results, fs))"

definition run_uploads ::
  "string \<Rightarrow> FileHeader list \<Rightarrow> nat list
     \<Rightarrow> upload_task list \<times> UploadResult list \<times> filesystem
     \<Rightarrow> upload_task list \<times> UploadResult list \<times> filesystem" where
  "run_uploads UploadsDir files sched pool =
     foldl (\<lambda>p idx. pool_step UploadsDir files idx p) pool sched"

definition is_Joined :: "upload_task \<Rightarrow> bool" where
  "is_Joined task = (case task of Joined r \<Rightarrow> True | _ \<Rightarrow> False)"

text \<open>Lines 271-281: the summary loop over the results.\<close>

record UploadSummary =
  total :: nat
  successful :: nat
  failed :: nat
  total_size :: "64 word"

definition summary_step :: "nat \<times> nat \<times> 64 word \<Rightarrow> UploadResult \<Rightarrow> nat \<times> nat \<times> 64 word" where
  "summary_step acc r =
     (case acc of (nsuccessful, nfailed, totalSize) \<Rightarrow>
        if Success r then (nsuccessful + 1, nfailed, totalSize + Size r)
        else (nsuccessful, nfailed + 1, totalSize))"

definition upload_summary :: "nat \<Rightarrow> UploadResult list \<Rightarrow> UploadSummary" where
  "upload_summary n results =
     (case foldl summary_step (0, 0, 0) results of (nsuccessful, nfailed, totalSize) \<Rightarrow>
        \<lparr>total = n, successful = nsuccessful, failed = nfailed, total_size = totalSize\<rparr>)"

datatype upload_response =
  UploadRejected nat string
  | UploadReport bool "UploadResult list" UploadSummary

text \<open>
  \<^verbatim>\<open>handleUploadMultiple\<close>. \<^verbatim>\<open>wg.Wait()\<close> returns once every goroutine has finished;
  the result is \<open>None\<close> when the steps of \<open>sched\<close> leave a goroutine unfinished,
  that is, when the handler has not returned.
\<close>

definition handleUploadMultiple ::
  "string \<Rightarrow> filesystem \<Rightarrow> FileHeader list option \<Rightarrow> nat list
     \<Rightarrow> (upload_response \<times> filesystem) option" where
  "handleUploadMultiple UploadsDir fs form sched =
     (case form of
        None \<Rightarrow> Some (UploadRejected 400 ''Invalid form data'', fs)
      | Some files \<Rightarrow>
          if length files = 0 then Some (UploadRejected 400 ''No files provided'', fs)
          else
            (case run_uploads UploadsDir files sched
                    (replicate (length files) AtStart,
                     replicate (length files) (upload_failure [] []), fs) of
               (tasks, results, fs') \<Rightarrow>
                 if list_all is_Joined tasks then
                   Some (UploadReport (failed (upload_summary (length files) results) = 0)
                           results (upload_summary (length files) results), fs')
                 else None))"


subsection \<open>Deletion: \<^verbatim>\<open>handleDelete\<close>, \<^verbatim>\<open>handleDeleteMultiple\<close>\<close>

record deleteResult =
  del_Filename :: string
  del_Success :: bool
  del_Error :: string

text \<open>
  The body of one deletion goroutine (lines 385-397). It makes one system call, so the
  goroutines of a batch deletion act on the directory one after the other, in the
  order \<open>sched\<close> of their calls.
\<close>

definition delete_task :: "string \<Rightarrow> filesystem \<Rightarrow> string \<Rightarrow> deleteResult \<times> filesystem" where
  "delete_task UploadsDir fs fname =
     (let filePath = Join UploadsDir (Clean fname)
      in if \<not> HasPrefix filePath UploadsDir then
           (\<lparr>del_Filename = fname, del_Success = False, del_Error = ''Access denied''\<rparr>, fs)
         else case os_Remove fs filePath of
                None \<Rightarrow>
                  (\<lparr>del_Filename = fname, del_Success = False, del_Error = ''File not found''\<rparr>, fs)
              | Some fs' \<Rightarrow>
                  (\<lparr>del_Filename = fname, del_Success = True, del_Error = []\<rparr>, fs'))"

fun run_deletes ::
  "string \<Rightarrow> string list \<Rightarrow> nat list \<Rightarrow> filesystem \<Rightarrow> deleteResult list
     \<Rightarrow> deleteResult list \<times> filesystem" where
  "run_deletes UploadsDir names [] fs results = (results, fs)"
| "run_deletes UploadsDir names (idx # sched) fs results =
     (if idx < length names then
        (case delete_task UploadsDir fs (names ! idx) of
           (r, fs') \<Rightarrow> run_deletes UploadsDir names sched fs' (results[idx := r]))
      else run_deletes UploadsDir names sched fs results)"

definition count_successful :: "deleteResult list \<Rightarrow> nat" where
  "count_successful results = foldl (\<lambda>n r. if del_Success r then n + 1 else n) 0 results"

record DeleteSummary =
  del_total :: nat
  del_successful :: nat
  del_failed :: nat

datatype delete_response =
  DeleteRejected nat string
  | DeleteReport bool "deleteResult list" DeleteSummary

text \<open>\<open>None\<close> for the body is the error of \<^verbatim>\<open>c.BodyParser\<close>.\<close>

definition handleDeleteMultiple ::
  "string \<Rightarrow> filesystem \<Rightarrow> string list option \<Rightarrow> nat list \<Rightarrow> delete_response \<times> filesystem" where
  "handleDeleteMultiple UploadsDir fs body sched =
     (case body of
        None \<Rightarrow> (DeleteRejected 400 ''Invalid request'', fs)
      | Some Filenames \<Rightarrow>
          (case run_deletes UploadsDir Filenames sched fs
                  (replicate (length Filenames)
                     \<lparr>del_Filename = [], del_Success = False, del_Error = []\<rparr>) of
             (results, fs') \<Rightarrow>
               (DeleteReport (count_successful results = length Filenames) results
                  \<lparr>del_total = length Filenames,
                   del_successful = count_successful results,
                   del_failed = length Filenames - count_successful results\<rparr>, fs')))"

text \<open>\<^verbatim>\<open>handleDelete\<close>: the status and the error text, or the deleted name.\<close>

datatype delete_one_response = DeleteFailed nat string | Deleted string

definition handleDelete :: "string \<Rightarrow> filesystem \<Rightarrow> string \<Rightarrow> delete_one_response \<times> filesystem" where
  "handleDelete UploadsDir fs filename =
     (let filePath = Join UploadsDir (Clean filename)
      in if \<not> HasPrefix filePath UploadsDir then (DeleteFailed 403 ''Access denied'', fs)
         else case os_Remove fs filePath of
                None \<Rightarrow> (DeleteFailed 404 ''File not found'', fs)
              | Some fs' \<Rightarrow> (Deleted filename, fs'))"

subsection \<open>Listing: \<^verbatim>\<open>handleListFiles\<close>\<close>

text \<open>
  A directory entry as \<^verbatim>\<open>os.ReadDir\<close> returns it; \<open>de_Info = None\<close> is the error of
  \<^verbatim>\<open>entry.Info()\<close>, otherwise the size and the modification time. \<open>Modified\<close> is the
  \<^verbatim>\<open>float64\<close> of the Unix time; the handler only compares these values, so the type
  of times is any linear order. As for uploads, the presentation fields
  \<^verbatim>\<open>SizeHuman\<close> and \<^verbatim>\<open>Type\<close> of a record are left out.
\<close>

record 't DirEntry =
  de_Name :: string
  de_IsDir :: bool
  de_Info :: "(64 word \<times> 't) option"

record 't FileInfo =
  Name :: string
  fi_Size :: "64 word"
  Modified :: 't

definition listed :: "'t DirEntry \<Rightarrow> bool" where
  "listed entry = (\<not> (de_IsDir entry \<or> HasPrefix (de_Name entry) ''.''))"

definition file_info :: "'t DirEntry \<Rightarrow> 't FileInfo option" where
  "file_info entry =
     (case de_Info entry of
        None \<Rightarrow> None
      | Some (sz, m) \<Rightarrow> Some \<lparr>Name = de_Name entry, fi_Size = sz, Modified = m\<rparr>)"

text \<open>
  One goroutine per listed entry appends its record under the mutex, so the slice
  is filled in the order \<open>sched\<close> in which the goroutines reach the append.
\<close>

fun collect :: "'t DirEntry list \<Rightarrow> nat list \<Rightarrow> 't FileInfo list" where
  "collect entries [] = []"
| "collect entries (idx # sched) =
     (if idx < length entries then
        (case file_info (entries ! idx) of
           None \<Rightarrow> collect entries sched
         | Some fi \<Rightarrow> fi # collect entries sched)
      else collect entries sched)"

text \<open>
  \<^verbatim>\<open>sort.Slice(files, less)\<close> with \<^verbatim>\<open>less(i, j) = files[i].Modified > files[j].Modified\<close>.
  On a slice of at most 12 elements the library (Go 1.19 and later) runs insertion
  sort: element \<open>i\<close> is swapped to the left while it is \<^verbatim>\<open>less\<close> than its left
  neighbour; \<open>shift_left\<close> does this on the reversed prefix. On a longer slice the library runs its
  pattern-defeating quicksort, which is not written out here: it is the parameter
  \<open>long_sort\<close>, of which the properties below use only what the library documents,
  that the result is a rearrangement of the slice sorted by \<^verbatim>\<open>less\<close>.
\<close>

fun shift_left :: "('t::linorder) FileInfo \<Rightarrow> 't FileInfo list \<Rightarrow> 't FileInfo list" where
  "shift_left x [] = [x]"
| "shift_left x (y # ys) =
     (if Modified x > Modified y then y # shift_left x ys else x # y # ys)"

definition insertion_sort :: "('t::linorder) FileInfo list \<Rightarrow> 't FileInfo list" where
  "insertion_sort files = rev (foldl (\<lambda>acc x. shift_left x acc) [] files)"

definition sort_Slice ::
  "(('t::linorder) FileInfo list \<Rightarrow> 't FileInfo list) \<Rightarrow> 't FileInfo list \<Rightarrow> 't FileInfo list" where
  "sort_Slice long_sort files =
     (if length files \<le> 12 then insertion_sort files else long_sort files)"

definition sorts_by_time :: "(('t::linorder) FileInfo list \<Rightarrow> 't FileInfo list) \<Rightarrow> bool" where
  "sorts_by_time long_sort =
     (\<forall>files. mset (long_sort files) = mset files \<and>
              sorted_wrt (\<lambda>a b. Modified a \<ge> Modified b) (long_sort files))"

text \<open>\<open>None\<close> for the directory is the error of \<^verbatim>\<open>os.ReadDir\<close>.\<close>

definition handleListFiles ::
  "(('t::linorder) FileInfo list \<Rightarrow> 't FileInfo list) \<Rightarrow> 't DirEntry list option \<Rightarrow> nat list
     \<Rightarrow> 't FileInfo list" where
  "handleListFiles long_sort dir sched =
     (case dir of
        None \<Rightarrow> []
      | Some entries \<Rightarrow> sort_Slice long_sort (collect (filter listed entries) sched))"

subsection \<open>Download: \<^verbatim>\<open>handleDownload\<close>\<close>

text \<open>
  \<^verbatim>\<open>strconv.ParseBool\<close>, and the framework's \<^verbatim>\<open>QueryBool\<close>: the value of the query
  parameter (the empty string when it is absent) is parsed, and the default is
  returned when it does not parse.
\<close>

definition ParseBool :: "string \<Rightarrow> bool option" where
  "ParseBool str =
     (if str \<in> set [''1'', ''t'', ''T'', ''true'', ''TRUE'', ''True''] then Some True
      else if str \<in> set [''0'', ''f'', ''F'', ''false'', ''FALSE'', ''False''] then Some False
      else None)"

definition QueryBool :: "string option \<Rightarrow> bool \<Rightarrow> bool" where
  "QueryBool param defaultValue =
     (case ParseBool (case param of None \<Rightarrow> [] | Some v \<Rightarrow> v) of
        None \<Rightarrow> defaultValue
      | Some b \<Rightarrow> b)"

text \<open>
  What the handler leaves when it returns: a JSON error with its status; the
  headers it has set and a body written into the response buffer; the headers and
  a file registered as the body stream by \<^verbatim>\<open>c.SendStream\<close>, with the mark whether
  that file has been closed; or an error returned to the framework.
\<close>

datatype download_response =
  DownloadFailed nat string
  | DownloadBuffered "(string \<times> string) list" bytes
  | DownloadStream "(string \<times> string) list" node bool
  | DownloadError string

definition set_header :: "string \<Rightarrow> string \<Rightarrow> (string \<times> string) list \<Rightarrow> (string \<times> string) list" where
  "set_header k v hs = AList.update k v hs"

text \<open>
  The compressor and the MIME table are libraries: \<open>zstd\<close> is \<open>None\<close> when
  \<^verbatim>\<open>zstd.NewWriter\<close> fails and otherwise the function from the bytes written to the
  encoder to the frame it has emitted when it is closed; \<open>mime\<close> stands for
  \<^verbatim>\<open>mime.TypeByExtension\<close>. The compressed branch copies the file into the encoder
  before the handler returns; reading a directory fails there and the handler
  returns the error. The raw branch only registers the file: \<^verbatim>\<open>defer file.Close()\<close>
  (line 202) runs when the handler returns, before the framework reads the stream.
\<close>

text \<open>
  \<^verbatim>\<open>stat.Size()\<close>: the length of a file; a directory reports the size of its own
  block, 4096 on the usual Linux file systems.
\<close>

definition node_size :: "node \<Rightarrow> nat" where
  "node_size file = (case file of File data \<Rightarrow> length data | Dir \<Rightarrow> 4096)"

definition handleDownload ::
  "(bytes \<Rightarrow> bytes) option \<Rightarrow> (string \<Rightarrow> string) \<Rightarrow> string \<Rightarrow> filesystem \<Rightarrow> string
     \<Rightarrow> string option \<Rightarrow> download_response" where
  "handleDownload zstd mime UploadsDir fs filename param =
     (let compressed = QueryBool param True;
          filePath = Join UploadsDir (Clean filename)
      in if \<not> HasPrefix filePath UploadsDir then DownloadFailed 403 ''Access denied''
         else case os_Stat fs filePath of
                None \<Rightarrow> DownloadFailed 404 ''File not found''
              | Some file \<Rightarrow>
                  (let hs = set_header ''Content-Disposition''
                              (''attachment; filename='' @ [CHR 0x22] @ filename @ [CHR 0x22]) []
                   in if compressed then
                        (case zstd of
                           None \<Rightarrow> DownloadFailed 500 ''Compression error''
                         | Some encode \<Rightarrow>
                             (case file of
                                Dir \<Rightarrow> DownloadError (''read '' @ filePath @ '': is a directory'')
                              | File data \<Rightarrow>
                                  DownloadBuffered
                                    (set_header ''Content-Type'' ''application/octet-stream''
                                       (set_header ''Content-Encoding'' ''zstd'' hs))
                                    (encode data)))
                      else
                        DownloadStream
                          (set_header ''Content-Type'' (mime (Ext filename))
                             (set_header ''Content-Length'' (itoa (node_size file)) hs))
                          file True))"

text \<open>
  What the client receives once the framework has finished the response: the JSON
  error; the buffered body, to which the framework adds its length as
  \<^verbatim>\<open>Content-Length\<close>; nothing when the registered stream is a closed file, since
  reading it fails and the connection is dropped; and status 500 with the text of a
  returned error.
\<close>

datatype wire_response =
  JsonError nat string
  | Body "(string \<times> string) list" bytes
  | PlainError nat string
  | NoResponse

definition http_response :: "download_response \<Rightarrow> wire_response" where
  "http_response r =
     (case r of
        DownloadFailed status msg \<Rightarrow> JsonError status msg
      | DownloadBuffered hs body \<Rightarrow> Body (set_header ''Content-Length'' (itoa (length body)) hs) body
      | DownloadStream hs file closed \<Rightarrow>
          (if closed then NoResponse
           else case file of File data \<Rightarrow> Body hs data | Dir \<Rightarrow> NoResponse)
      | DownloadError msg \<Rightarrow> PlainError 500 msg)"

subsection \<open>Example directories and requests\<close>

text \<open>
  The default configuration: the data directory is \<^verbatim>\<open>$HOME/.flashare\<close> and the shared
  directory is \<^verbatim>\<open>filepath.Join(dataDir, "uploads")\<close> (\<^verbatim>\<open>cli.go\<close>, lines 83 and 168).
\<close>

definition uploads_dir :: string where
  "uploads_dir = Join ''/home/u/.flashare'' ''uploads''"

definition home_fs :: filesystem where
  "home_fs =
     [(''/'', Dir), (''/home'', Dir), (''/home/u'', Dir), (''/home/u/.flashare'', Dir),
      (''/home/u/.flashare/uploads'', Dir)]"

text \<open>A second directory beside the shared one, whose name starts with the same bytes.\<close>

definition backup_fs :: filesystem where
  "backup_fs =
     home_fs @ [(''/home/u/.flashare/uploads_old'', Dir),
                (''/home/u/.flashare/uploads_old/x'', File [1, 2, 3])]"


text \<open>A part whose source opens and whose copy runs to the end.\<close>

definition upload :: "string \<Rightarrow> bytes \<Rightarrow> FileHeader" where
  "upload name data = \<lparr>fh_Filename = name, fh_Data = data, fh_OpenOk = True, fh_CopyErr = None\<rparr>"


text \<open>A batch of two parts that carry the same name.\<close>

definition same_name_parts :: "FileHeader list" where
  "same_name_parts = [upload ''a.txt'' [1, 2, 3], upload ''a.txt'' [7, 8]]"


text \<open>A directory listing in which two files carry the same modification time.\<close>

definition tied_entries :: "int DirEntry list" where
  "tied_entries =
     [\<lparr>de_Name = ''a.txt'', de_IsDir = False, de_Info = Some (3, 1700000000)\<rparr>,
      \<lparr>de_Name = ''.hidden'', de_IsDir = False, de_Info = Some (1, 1700000009)\<rparr>,
      \<lparr>de_Name = ''b.txt'', de_IsDir = False, de_Info = Some (2, 1700000000)\<rparr>,
      \<lparr>de_Name = ''c.txt'', de_IsDir = False, de_Info = Some (5, 1700000005)\<rparr>]"

text \<open>
  A name of 254 bytes, the longest to which no suffix \<^verbatim>\<open>_1\<close> can be added, and the
  shared directory holding a file of that name.
\<close>

definition long_name :: string where
  "long_name = replicate 250 CHR ''a'' @ ''.txt''"

definition long_name_fs :: filesystem where
  "long_name_fs = home_fs @ [(''/home/u/.flashare/uploads/'' @ long_name, File [1])]"

section \<open>Properties\<close>

subsection \<open>The duplicate loop\<close>

lemma digit_char_inj: "a < 10 \<Longrightarrow> b < 10 \<Longrightarrow> digit_char a = digit_char b \<Longrightarrow> a = b"
proof -
  assume a: "a < 10" and b: "b < 10" and e: "digit_char a = digit_char b"
  have A: "a \<in> {0,1,2,3,4,5,6,7,8,9}" using a by auto
  have B: "b \<in> {0,1,2,3,4,5,6,7,8,9}" using b by auto
  show ?thesis using A B e unfolding digit_char_def by auto
qed

lemma itoa_not_Nil: "itoa n \<noteq> []"
  by (subst itoa.simps) simp

lemma itoa_inj: "itoa m = itoa n \<Longrightarrow> m = n"
proof (induction m arbitrary: n rule: itoa.induct)
  case (1 m)
  show ?case
  proof (cases "m < 10")
    case small_m: True
    show ?thesis
    proof (cases "n < 10")
      case True
      with small_m "1.prems" show ?thesis
        by (simp add: itoa.simps [of m] itoa.simps [of n] digit_char_inj)
    next
      case False
      with small_m "1.prems" itoa_not_Nil [of "n div 10"] show ?thesis
        by (simp add: itoa.simps [of m] itoa.simps [of n])
    qed
  next
    case big_m: False
    show ?thesis
    proof (cases "n < 10")
      case True
      with big_m "1.prems" itoa_not_Nil [of "m div 10"] show ?thesis
        by (simp add: itoa.simps [of m] itoa.simps [of n])
    next
      case False
      with big_m "1.prems" have q: "itoa (m div 10) = itoa (n div 10)"
        and r: "digit_char (m mod 10) = digit_char (n mod 10)"
        by (simp_all add: itoa.simps [of m] itoa.simps [of n])
      from "1.IH" [OF big_m q] have "m div 10 = n div 10" .
      moreover from r have "m mod 10 = n mod 10"
        by (intro digit_char_inj) simp_all
      ultimately show ?thesis
        by (metis div_mult_mod_eq)
    qed
  qed
qed

lemma candidate_inj: "candidate base ext i = candidate base ext j \<Longrightarrow> i = j"
  by (simp add: candidate_def itoa_inj)

text \<open>A result of the loop is the first candidate, counting from \<open>i\<close>, that does not exist.\<close>

lemma dup_loop_Some:
  assumes "dup_loop fs base ext i = Some d"
  shows "\<exists>k\<ge>i. d = candidate base ext k \<and> IsNotExist (os_Stat_error fs d) \<and>
     (\<forall>j. i \<le> j \<and> j < k \<longrightarrow> \<not> IsNotExist (os_Stat_error fs (candidate base ext j)))"
proof -
  let ?Q = "\<lambda>fs base ext i d.
     \<exists>k\<ge>i. d = candidate base ext k \<and> IsNotExist (os_Stat_error fs d) \<and>
       (\<forall>j. i \<le> j \<and> j < k \<longrightarrow> \<not> IsNotExist (os_Stat_error fs (candidate base ext j)))"
  have step: "?Q fs base ext i d"
    if IH: "\<And>fs base ext i d. loop fs base ext i = Some d \<Longrightarrow> ?Q fs base ext i d"
      and eq: "(if IsNotExist (os_Stat_error fs (candidate base ext i))
                then Some (candidate base ext i) else loop fs base ext (i + 1)) = Some d"
    for loop fs base ext i d
  proof (cases "IsNotExist (os_Stat_error fs (candidate base ext i))")
    case True
    with eq have "d = candidate base ext i" by simp
    with True show ?thesis by (intro exI [of _ i]) auto
  next
    case False
    with eq have "loop fs base ext (i + 1) = Some d" by simp
    from IH [OF this] obtain k where k: "i + 1 \<le> k" "d = candidate base ext k"
      "IsNotExist (os_Stat_error fs d)"
      "\<forall>j. i + 1 \<le> j \<and> j < k \<longrightarrow> \<not> IsNotExist (os_Stat_error fs (candidate base ext j))"
      by blast
    have "\<not> IsNotExist (os_Stat_error fs (candidate base ext j))" if "i \<le> j" "j < k" for j
    proof (cases "j = i")
      case True
      with False show ?thesis by simp
    next
      case False
      with that k(4) show ?thesis by simp
    qed
    with k show ?thesis by (intro exI [of _ k]) simp
  qed
  show ?thesis by (rule dup_loop.raw_induct [where P = ?Q, OF step assms])
qed

lemma dup_loop_reaches:
  "IsNotExist (os_Stat_error fs (candidate base ext k)) \<Longrightarrow>
   (\<And>j. i \<le> j \<Longrightarrow> j < k \<Longrightarrow> \<not> IsNotExist (os_Stat_error fs (candidate base ext j))) \<Longrightarrow>
   i \<le> k \<Longrightarrow> dup_loop fs base ext i = Some (candidate base ext k)"
proof (induction "k - i" arbitrary: i)
  case 0
  then have "i = k" by simp
  with "0.prems"(1) show ?case by (subst dup_loop.simps) simp
next
  case (Suc n)
  then have lt: "i < k" by simp
  with Suc.prems(2) [of i] have used: "\<not> IsNotExist (os_Stat_error fs (candidate base ext i))"
    by simp
  have "dup_loop fs base ext (i + 1) = Some (candidate base ext k)"
  proof (rule Suc.hyps(1))
    show "n = k - (i + 1)" using Suc.hyps(2) by simp
    show "IsNotExist (os_Stat_error fs (candidate base ext k))" by (rule Suc.prems(1))
    show "i + 1 \<le> k" using lt by simp
    fix j assume "i + 1 \<le> j" "j < k"
    then show "\<not> IsNotExist (os_Stat_error fs (candidate base ext j))"
      using Suc.prems(2) [of j] by simp
  qed
  with used show ?case by (subst dup_loop.simps) simp
qed

text \<open>
  The loop returns exactly when some candidate from \<open>i\<close> on does not exist. When
  \<^verbatim>\<open>os.Stat\<close> fails on every candidate with another error, it never returns.
\<close>

lemma dup_loop_returns_iff:
  "(\<exists>d. dup_loop fs base ext i = Some d) \<longleftrightarrow>
   (\<exists>k\<ge>i. IsNotExist (os_Stat_error fs (candidate base ext k)))"
proof
  assume "\<exists>d. dup_loop fs base ext i = Some d"
  then show "\<exists>k\<ge>i. IsNotExist (os_Stat_error fs (candidate base ext k))"
    using dup_loop_Some by blast
next
  assume ex: "\<exists>k\<ge>i. IsNotExist (os_Stat_error fs (candidate base ext k))"
  define P where "P k \<longleftrightarrow> i \<le> k \<and> IsNotExist (os_Stat_error fs (candidate base ext k))" for k
  from ex have "\<exists>k. P k" by (auto simp: P_def)
  define k where "k = (LEAST k. P k)"
  from \<open>\<exists>k. P k\<close> have Pk: "P k" unfolding k_def by (metis LeastI)
  have least: "\<And>j. P j \<Longrightarrow> k \<le> j" unfolding k_def by (rule Least_le)
  have "\<not> IsNotExist (os_Stat_error fs (candidate base ext j))" if "i \<le> j" "j < k" for j
    using that least [of j] by (auto simp: P_def)
  then have "dup_loop fs base ext i = Some (candidate base ext k)"
    using Pk by (intro dup_loop_reaches) (simp_all add: P_def)
  then show "\<exists>d. dup_loop fs base ext i = Some d" by blast
qed

lemma dup_loop_spins:
  "(\<And>k. i \<le> k \<Longrightarrow> \<not> IsNotExist (os_Stat_error fs (candidate base ext k))) \<Longrightarrow>
   dup_loop fs base ext i = None"
  using dup_loop_returns_iff [of fs base ext i] by (cases "dup_loop fs base ext i") auto

text \<open>
  The candidates are pairwise different and the table is finite: when the candidates
  \<open>i, ..., i + length fs\<close> all fit the name limit, one of them does not exist and the
  loop returns.
\<close>

lemma dup_loop_returns_when_names_fit:
  assumes fit: "\<And>k. i \<le> k \<Longrightarrow> k \<le> i + length fs \<Longrightarrow> \<not> name_too_long (candidate base ext k)"
  shows "\<exists>d. dup_loop fs base ext i = Some d"
proof -
  have "\<exists>k\<in>{i..i + length fs}. candidate base ext k \<notin> fst ` set fs"
  proof (rule ccontr)
    assume "\<not> ?thesis"
    then have sub: "candidate base ext ` {i..i + length fs} \<subseteq> fst ` set fs" by auto
    have inj: "inj_on (candidate base ext) {i..i + length fs}"
      by (rule inj_onI) (rule candidate_inj)
    have "card {i..i + length fs} = card (candidate base ext ` {i..i + length fs})"
      using inj by (simp add: card_image)
    also have "\<dots> \<le> card (fst ` set fs)" using sub by (intro card_mono) simp_all
    also have "\<dots> \<le> length fs" by (metis card_image_le card_length le_trans List.finite_set)
    finally show False by simp
  qed
  then obtain k where k: "i \<le> k" "k \<le> i + length fs" "candidate base ext k \<notin> fst ` set fs"
    by auto
  then have "map_of fs (candidate base ext k) = None" by (simp add: map_of_eq_None_iff)
  with fit [OF k(1,2)] have "IsNotExist (os_Stat_error fs (candidate base ext k))"
    by (simp add: IsNotExist_def os_Stat_error_def)
  with k(1) show ?thesis using dup_loop_returns_iff by blast
qed

subsection \<open>Creating, writing and removing a path that was free\<close>

text \<open>A resolved name on which \<^verbatim>\<open>os.Create\<close> succeeds was not in the directory.\<close>

lemma resolve_name_fresh:
  assumes res: "resolve_name dir fs name = Some (destPath, filename)"
    and created: "os_Create fs destPath = Some fs1"
  shows "map_of fs destPath = None"
proof -
  from created have fits: "\<not> name_too_long destPath"
    by (auto simp: os_Create_def split: if_splits)
  show ?thesis
  proof (cases "os_Stat fs (Join dir (Base name)) = None")
    case True
    with res have "destPath = Join dir (Base name)" by (auto simp: resolve_name_def Let_def)
    with True fits show ?thesis by (auto simp: os_Stat_def os_Stat_error_def split: if_splits)
  next
    case False
    with res obtain d where "dup_loop fs
        (take (length (Join dir (Base name)) - length (Ext (Join dir (Base name))))
           (Join dir (Base name)))
        (Ext (Join dir (Base name))) 1 = Some d" and "destPath = d"
      by (auto simp: resolve_name_def Let_def split: option.splits)
    with dup_loop_Some have "IsNotExist (os_Stat_error fs destPath)" by blast
    then show ?thesis by (auto simp: IsNotExist_def os_Stat_error_def split: if_splits)
  qed
qed

lemma update_absent: "map_of fs k = None \<Longrightarrow> AList.update k v fs = fs @ [(k, v)]"
  by (induction fs) (auto split: if_splits)

lemma update_last: "map_of fs k = None \<Longrightarrow> AList.update k w (fs @ [(k, v)]) = fs @ [(k, w)]"
  by (induction fs) (auto split: if_splits)

lemma delete_last: "map_of fs k = None \<Longrightarrow> AList.delete k (fs @ [(k, v)]) = fs"
  by (induction fs) (auto split: if_splits)

lemma map_of_last: "map_of fs k = None \<Longrightarrow> map_of (fs @ [(k, v)]) k = Some v"
  by (simp add: map_add_def)

lemma os_Create_fresh:
  "map_of fs d = None \<Longrightarrow> os_Create fs d = Some fs1 \<Longrightarrow>
   fs1 = fs @ [(d, File [])] \<and> \<not> name_too_long d"
  by (auto simp: os_Create_def update_absent split: if_splits)

lemma write_file_last:
  "map_of fs d = None \<Longrightarrow>
   write_file (fs @ [(d, File old)]) d data = fs @ [(d, File (data @ drop (length data) old))]"
  by (simp add: write_file_def map_of_last update_last del: map_of_append)

lemma remove_last:
  "map_of fs d = None \<Longrightarrow> \<not> name_too_long d \<Longrightarrow>
   remove_ignoring_error (fs @ [(d, File data)]) d = fs"
  by (simp add: remove_ignoring_error_def os_Remove_def map_of_last delete_last del: map_of_append)

lemma os_Stat_last:
  "map_of fs d = None \<Longrightarrow> \<not> name_too_long d \<Longrightarrow> os_Stat (fs @ [(d, v)]) d = Some v"
  by (simp add: os_Stat_def os_Stat_error_def map_of_last del: map_of_append)

lemma os_Stat_last_other:
  "p \<noteq> d \<Longrightarrow> os_Stat (fs @ [(d, v)]) p = os_Stat fs p"
  by (simp add: os_Stat_def os_Stat_error_def map_add_def split: option.splits)

lemma removing_step_unlinks:
  assumes "\<not> name_too_long d" and "map_of fs d \<noteq> Some Dir"
  shows "save_step dir file (Removing d f) fs =
           (Returned (upload_failure f ''Failed to save file''), remove_ignoring_error fs d) \<and>
         map_of (remove_ignoring_error fs d) d = None"
proof -
  have "map_of (remove_ignoring_error fs d) d = None"
  proof (cases "map_of fs d")
    case None
    then show ?thesis by (simp add: remove_ignoring_error_def os_Remove_def)
  next
    case (Some v)
    with assms(2) obtain data where "map_of fs d = Some (File data)" by (cases v) auto
    with assms(1) show ?thesis
      by (simp add: remove_ignoring_error_def os_Remove_def AList.delete_conv)
  qed
  then show ?thesis by (simp add: save_step_def)
qed

subsection \<open>Plain names stay inside the shared directory\<close>

text \<open>
  The shared directory is the result of \<^verbatim>\<open>filepath.Join\<close>, so it is a cleaned path
  that ends in the element \<^verbatim>\<open>uploads\<close>; the lemmas ask for a directory that
  \<^verbatim>\<open>Clean\<close> leaves as it is and that is neither the root nor \<^verbatim>\<open>.\<close>.
\<close>

lemma split_path_not_Nil: "split_path p \<noteq> []"
  by (induction p) (auto split: list.splits)

lemma split_path_no_sep: "CHR ''/'' \<notin> set e \<Longrightarrow> split_path e = [e]"
  by (induction e) (auto simp: IsPathSeparator_def)

lemma split_path_append:
  "CHR ''/'' \<notin> set e \<Longrightarrow> split_path (a @ CHR ''/'' # e) = split_path a @ [e]"
proof (induction a)
  case Nil
  then show ?case by (simp add: IsPathSeparator_def split_path_no_sep)
next
  case (Cons c a)
  then show ?case
    using split_path_not_Nil [of a]
    by (cases "split_path a") (auto simp: IsPathSeparator_def)
qed

lemma join_path_snoc: "out \<noteq> [] \<Longrightarrow> join_path (out @ [e]) = join_path out @ ''/'' @ e"
  by (induction out rule: join_path.induct) auto

lemma clean_step_plain: "plain_name e \<Longrightarrow> clean_step rooted out e = out @ [e]"
  by (simp add: clean_step_def plain_name_def)

lemma Clean_plain: "plain_name e \<Longrightarrow> Clean e = e"
proof -
  assume p: "plain_name e"
  then have "split_path e = [e]" by (simp add: plain_name_def split_path_no_sep)
  moreover from p have "\<not> IsPathSeparator (hd e)"
    by (cases e) (auto simp: plain_name_def IsPathSeparator_def)
  moreover from p have "e \<noteq> []" by (simp add: plain_name_def)
  ultimately show ?thesis using p by (simp add: Clean_def Let_def clean_step_plain)
qed

lemma Clean_under:
  assumes clean: "Clean dir = dir" and nr: "dir \<noteq> ''/''" and nd: "dir \<noteq> ''.''"
    and p: "plain_name e"
  shows "Clean (dir @ ''/'' @ e) = dir @ ''/'' @ e"
proof -
  from clean have ne: "dir \<noteq> []" by (auto simp: Clean_def)
  then have hd: "hd (dir @ CHR ''/'' # e) = hd dir" by simp
  from p have split: "split_path (dir @ CHR ''/'' # e) = split_path dir @ [e]"
    by (simp add: plain_name_def split_path_append)
  show ?thesis
  proof (cases "IsPathSeparator (hd dir)")
    case True
    define out where "out = foldl (clean_step True) [] (split_path dir)"
    from clean ne True have render: "dir = ''/'' @ join_path out"
      by (simp add: Clean_def Let_def out_def)
    with nr have out_ne: "out \<noteq> []" by auto
    have "Clean (dir @ ''/'' @ e) = ''/'' @ join_path (out @ [e])"
      using True hd split by (simp add: Clean_def Let_def out_def clean_step_plain [OF p])
    also have "\<dots> = (''/'' @ join_path out) @ ''/'' @ e"
      by (simp add: join_path_snoc [OF out_ne])
    finally show ?thesis using render by simp
  next
    case False
    define out where "out = foldl (clean_step False) [] (split_path dir)"
    from clean ne False have render: "dir = (if out = [] then ''.'' else join_path out)"
      by (auto simp: Clean_def Let_def out_def split: if_splits)
    with nd have out_ne: "out \<noteq> []" by auto
    have "Clean (dir @ ''/'' @ e) = join_path (out @ [e])"
      using False hd split by (simp add: Clean_def Let_def out_def clean_step_plain [OF p])
    also have "\<dots> = join_path out @ ''/'' @ e"
      by (simp add: join_path_snoc [OF out_ne])
    finally show ?thesis using render out_ne by simp
  qed
qed

lemma Join_under:
  assumes "Clean dir = dir" "dir \<noteq> ''/''" "dir \<noteq> ''.''" "plain_name e"
  shows "Join dir e = dir @ ''/'' @ e" and "Join dir (Clean e) = dir @ ''/'' @ e"
proof -
  from assms(1) have ne: "dir \<noteq> []" by (auto simp: Clean_def)
  with Clean_under [OF assms] show "Join dir e = dir @ ''/'' @ e" by (simp add: Join_def)
  then show "Join dir (Clean e) = dir @ ''/'' @ e" by (simp add: Clean_plain [OF assms(4)])
qed

lemma HasPrefix_append: "HasPrefix (d @ rest) d"
  by (simp add: HasPrefix_def)

lemma Base_under:
  assumes "x \<noteq> []" "CHR ''/'' \<notin> set x"
  shows "Base (d @ ''/'' @ x) = x"
proof -
  from assms have "last x \<noteq> CHR ''/''" by (metis last_in_set)
  with assms(1) have h: "\<not> IsPathSeparator (hd (rev x))" "rev x \<noteq> []"
    by (simp_all add: IsPathSeparator_def hd_rev)
  then have "dropWhile IsPathSeparator (rev x @ ''/'' @ rev d) = rev x @ ''/'' @ rev d"
    by (cases "rev x") auto
  moreover have "takeWhile (\<lambda>c. \<not> IsPathSeparator c) (rev x @ ''/'' @ rev d) = rev x"
    using assms(2) by (simp add: takeWhile_append IsPathSeparator_def takeWhile_eq_all_conv)
  ultimately show ?thesis using assms(1) by (simp add: Base_def Let_def)
qed

lemma Base_shape: "Base p = ''/'' \<or> (Base p \<noteq> [] \<and> CHR ''/'' \<notin> set (Base p))"
proof (cases "p = []")
  case True
  then show ?thesis by (simp add: Base_def)
next
  case False
  have "CHR ''/'' \<notin> set (takeWhile (\<lambda>c. \<not> IsPathSeparator c) xs)" for xs
    by (induction xs) (auto simp: IsPathSeparator_def)
  with False show ?thesis by (auto simp: Base_def Let_def)
qed

lemma Base_plain: "Base p \<notin> {''.'', ''..'', ''/''} \<Longrightarrow> plain_name (Base p)"
  using Base_shape [of p] by (auto simp: plain_name_def)

lemma ext_scan_stops:
  "CHR ''/'' \<notin> set xs \<Longrightarrow> ext_scan (xs @ CHR ''/'' # ys) acc = ext_scan xs acc"
  by (induction xs arbitrary: acc) (auto simp: IsPathSeparator_def)

lemma Ext_under: "CHR ''/'' \<notin> set e \<Longrightarrow> Ext (d @ ''/'' @ e) = Ext e"
  by (simp add: Ext_def ext_scan_stops)

lemma ext_scan_suffix:
  "\<exists>pre. rev xs @ acc = pre @ ext_scan xs acc"
proof (induction xs arbitrary: acc)
  case Nil
  then show ?case by simp
next
  case (Cons c cs)
  show ?case
  proof (cases "IsPathSeparator c \<or> c = CHR ''.''")
    case True
    then show ?thesis by auto
  next
    case False
    with Cons.IH [of "c # acc"] show ?thesis by simp
  qed
qed

lemma Ext_suffix: "\<exists>stem. e = stem @ Ext e"
  using ext_scan_suffix [of "rev e" "[]"] by (simp add: Ext_def)

lemma itoa_digits: "set (itoa n) \<subseteq> set ''0123456789''"
proof (induction n rule: itoa.induct)
  case (1 n)
  have d: "k < 10 \<Longrightarrow> digit_char k \<in> set ''0123456789''" for k
    unfolding digit_char_def by (rule nth_mem) simp
  show ?case
  proof (cases "n < 10")
    case True
    with d [of n] show ?thesis by (subst itoa.simps) simp
  next
    case False
    with "1.IH" d [of "n mod 10"] show ?thesis by (subst itoa.simps) simp
  qed
qed

lemma numbered_name_plain:
  assumes "CHR ''/'' \<notin> set stem" "CHR ''/'' \<notin> set ext"
  shows "plain_name (stem @ ''_'' @ itoa k @ ext)"
proof -
  define x where "x = stem @ ''_'' @ itoa k @ ext"
  have "CHR ''/'' \<notin> set (itoa k)" using itoa_digits [of k] by auto
  with assms have nosep: "CHR ''/'' \<notin> set x" by (simp add: x_def)
  have m: "CHR ''_'' \<in> set x" by (simp add: x_def)
  then have "x \<noteq> []" "x \<noteq> ''.''" "x \<noteq> ''..''" by auto
  with nosep show ?thesis unfolding x_def [symmetric] by (simp add: plain_name_def)
qed

lemma take_stem: "take (length (a @ b) - length b) (a @ b) = a"
  by simp


lemma Base_of_plain: "plain_name e \<Longrightarrow> Base e = e"
proof -
  assume p: "plain_name e"
  then have ne: "e \<noteq> []" and nosep: "CHR ''/'' \<notin> set e" by (simp_all add: plain_name_def)
  then have "last e \<noteq> CHR ''/''" by (metis last_in_set)
  with ne have "dropWhile IsPathSeparator (rev e) = rev e"
    by (cases "rev e") (auto simp: IsPathSeparator_def hd_rev)
  moreover have "takeWhile (\<lambda>c. \<not> IsPathSeparator c) (rev e) = rev e"
    using nosep by (auto simp: IsPathSeparator_def takeWhile_eq_all_conv)
  ultimately show ?thesis using ne
    by (simp add: Base_def Let_def del: takeWhile_eq_all_conv dropWhile_eq_self_iff)
qed

text \<open>
  A resolved name of a part with a plain base name lies in the shared directory, and
  the reported name is its last element.
\<close>

lemma resolve_name_inside:
  assumes clean: "Clean dir = dir" "dir \<noteq> ''/''" "dir \<noteq> ''.''"
    and plain: "Base name \<notin> {''.'', ''..'', ''/''}"
    and res: "resolve_name dir fs name = Some (destPath, filename)"
  shows "destPath = dir @ ''/'' @ filename \<and> plain_name filename"
proof -
  from plain have p: "plain_name (Base name)" by (rule Base_plain)
  then have nosep: "CHR ''/'' \<notin> set (Base name)" by (simp add: plain_name_def)
  have join: "Join dir (Base name) = dir @ ''/'' @ Base name" by (rule Join_under [OF clean p])
  show ?thesis
  proof (cases "os_Stat fs (dir @ ''/'' @ Base name) = None")
    case True
    with res have "destPath = dir @ ''/'' @ Base name" and "filename = Base name"
      unfolding resolve_name_def Let_def join by auto
    with p show ?thesis by simp
  next
    case False
    obtain stem where stem: "Base name = stem @ Ext (Base name)" using Ext_suffix by blast
    from nosep have parts: "CHR ''/'' \<notin> set stem" "CHR ''/'' \<notin> set (Ext (Base name))"
      by (subst (asm) stem, simp)+
    have ext: "Ext (dir @ ''/'' @ Base name) = Ext (Base name)" by (rule Ext_under [OF nosep])
    have whole: "(dir @ ''/'' @ stem) @ Ext (Base name) = dir @ ''/'' @ Base name"
      by (subst (2) stem) simp
    have base: "take (length (dir @ ''/'' @ Base name) - length (Ext (Base name)))
            (dir @ ''/'' @ Base name) = dir @ ''/'' @ stem"
      using take_stem [of "dir @ ''/'' @ stem" "Ext (Base name)"] unfolding whole .
    from res False obtain d
      where loop: "dup_loop fs (dir @ ''/'' @ stem) (Ext (Base name)) 1 = Some d"
        and d: "destPath = d" "filename = Base d"
      unfolding resolve_name_def Let_def join ext base by (auto split: option.splits)
    from dup_loop_Some [OF loop] obtain k
      where k: "d = candidate (dir @ ''/'' @ stem) (Ext (Base name)) k" by blast
    have cand: "candidate (dir @ ''/'' @ stem) (Ext (Base name)) k =
        dir @ ''/'' @ (stem @ ''_'' @ itoa k @ Ext (Base name))"
      by (simp add: candidate_def)
    have pk: "plain_name (stem @ ''_'' @ itoa k @ Ext (Base name))"
      by (rule numbered_name_plain [OF parts])
    then have b: "Base (dir @ ''/'' @ (stem @ ''_'' @ itoa k @ Ext (Base name))) =
        stem @ ''_'' @ itoa k @ Ext (Base name)"
      by (intro Base_under) (simp_all add: plain_name_def)
    from d k have "destPath = dir @ ''/'' @ (stem @ ''_'' @ itoa k @ Ext (Base name))"
      by (simp add: candidate_def)
    moreover from d k b have "filename = stem @ ''_'' @ itoa k @ Ext (Base name)"
      by (simp add: candidate_def)
    ultimately show ?thesis using pk by simp
  qed
qed

text \<open>
  Name resolution on a plain base name. A name on which \<^verbatim>\<open>os.Stat\<close> fails is kept.
  Otherwise, when the resolution returns, the result is the first name among
  \<open>stem_1.ext\<close>, \<open>stem_2.ext\<close>, ... in the shared directory that does not exist; and
  it does return when the names \<open>stem_1.ext\<close>, ..., up to one more than there are
  entries, fit the name limit.
\<close>

lemma resolve_name_plain:
  assumes clean: "Clean dir = dir" "dir \<noteq> ''/''" "dir \<noteq> ''.''"
    and plain: "Base name \<notin> {''.'', ''..'', ''/''}"
  shows "\<exists>stem. Base name = stem @ Ext (Base name) \<and>
     (if os_Stat fs (dir @ ''/'' @ Base name) = None
      then resolve_name dir fs name = Some (dir @ ''/'' @ Base name, Base name)
      else
        (\<forall>destPath filename. resolve_name dir fs name = Some (destPath, filename) \<longrightarrow>
           (\<exists>k\<ge>1.
              destPath = dir @ ''/'' @ stem @ ''_'' @ itoa k @ Ext (Base name) \<and>
              filename = stem @ ''_'' @ itoa k @ Ext (Base name) \<and>
              IsNotExist (os_Stat_error fs destPath) \<and>
              (\<forall>j. 1 \<le> j \<and> j < k \<longrightarrow>
                 \<not> IsNotExist (os_Stat_error fs
                      (dir @ ''/'' @ stem @ ''_'' @ itoa j @ Ext (Base name)))))) \<and>
        ((\<forall>k. 1 \<le> k \<and> k \<le> 1 + length fs \<longrightarrow>
            \<not> name_too_long (dir @ ''/'' @ stem @ ''_'' @ itoa k @ Ext (Base name))) \<longrightarrow>
         resolve_name dir fs name \<noteq> None))"
proof -
  from plain have p: "plain_name (Base name)" by (rule Base_plain)
  then have nosep: "CHR ''/'' \<notin> set (Base name)" by (simp add: plain_name_def)
  have join: "Join dir (Base name) = dir @ ''/'' @ Base name" by (rule Join_under [OF clean p])
  obtain stem where stem: "Base name = stem @ Ext (Base name)" using Ext_suffix by blast
  show ?thesis
  proof (cases "os_Stat fs (dir @ ''/'' @ Base name) = None")
    case True
    then have "resolve_name dir fs name = Some (dir @ ''/'' @ Base name, Base name)"
      unfolding resolve_name_def Let_def join by simp
    with True stem show ?thesis by auto
  next
    case False
    from nosep have parts: "CHR ''/'' \<notin> set stem" "CHR ''/'' \<notin> set (Ext (Base name))"
      by (subst (asm) stem, simp)+
    have ext: "Ext (dir @ ''/'' @ Base name) = Ext (Base name)" by (rule Ext_under [OF nosep])
    have whole: "(dir @ ''/'' @ stem) @ Ext (Base name) = dir @ ''/'' @ Base name"
      by (subst (2) stem) simp
    have base: "take (length (dir @ ''/'' @ Base name) - length (Ext (Base name)))
            (dir @ ''/'' @ Base name) = dir @ ''/'' @ stem"
      using take_stem [of "dir @ ''/'' @ stem" "Ext (Base name)"] unfolding whole .
    have cand: "candidate (dir @ ''/'' @ stem) (Ext (Base name)) j =
        dir @ ''/'' @ stem @ ''_'' @ itoa j @ Ext (Base name)" for j
      by (simp add: candidate_def)
    have unfolded: "resolve_name dir fs name =
        (case dup_loop fs (dir @ ''/'' @ stem) (Ext (Base name)) 1 of
           None \<Rightarrow> None | Some d \<Rightarrow> Some (d, Base d))"
      using False unfolding resolve_name_def Let_def join ext base by simp
    have first: "\<exists>k\<ge>1.
              destPath = dir @ ''/'' @ stem @ ''_'' @ itoa k @ Ext (Base name) \<and>
              filename = stem @ ''_'' @ itoa k @ Ext (Base name) \<and>
              IsNotExist (os_Stat_error fs destPath) \<and>
              (\<forall>j. 1 \<le> j \<and> j < k \<longrightarrow>
                 \<not> IsNotExist (os_Stat_error fs
                      (dir @ ''/'' @ stem @ ''_'' @ itoa j @ Ext (Base name))))"
      if res: "resolve_name dir fs name = Some (destPath, filename)" for destPath filename
    proof -
      from res unfolded obtain d
        where loop: "dup_loop fs (dir @ ''/'' @ stem) (Ext (Base name)) 1 = Some d"
          and d: "destPath = d" "filename = Base d"
        by (auto split: option.splits)
      from dup_loop_Some [OF loop] obtain k where k: "1 \<le> k"
        and dk: "d = dir @ ''/'' @ stem @ ''_'' @ itoa k @ Ext (Base name)"
        and free: "IsNotExist (os_Stat_error fs d)"
        and used: "\<forall>j. 1 \<le> j \<and> j < k \<longrightarrow>
            \<not> IsNotExist (os_Stat_error fs (dir @ ''/'' @ stem @ ''_'' @ itoa j @ Ext (Base name)))"
        unfolding cand by blast
      have pk: "plain_name (stem @ ''_'' @ itoa k @ Ext (Base name))"
        by (rule numbered_name_plain [OF parts])
      then have b: "Base (dir @ ''/'' @ stem @ ''_'' @ itoa k @ Ext (Base name)) =
          stem @ ''_'' @ itoa k @ Ext (Base name)"
        using Base_under [of "stem @ ''_'' @ itoa k @ Ext (Base name)" dir]
        by (simp add: plain_name_def)
      from d dk b k free used show ?thesis by auto
    qed
    have returns: "resolve_name dir fs name \<noteq> None"
      if fit: "\<forall>k. 1 \<le> k \<and> k \<le> 1 + length fs \<longrightarrow>
            \<not> name_too_long (dir @ ''/'' @ stem @ ''_'' @ itoa k @ Ext (Base name))"
    proof -
      have "\<exists>d. dup_loop fs (dir @ ''/'' @ stem) (Ext (Base name)) 1 = Some d"
        by (rule dup_loop_returns_when_names_fit) (use fit in \<open>simp add: candidate_def\<close>)
      with unfolded show ?thesis by auto
    qed
    from False stem first returns show ?thesis by auto
  qed
qed

lemma store_upload_success:
  assumes res: "resolve_name dir fs name = Some (destPath, filename)"
    and ok: "Success (fst (store_upload fs destPath filename file))"
  shows "store_upload fs destPath filename file =
     (\<lparr>Success = True, Filename = filename, Size = of_nat (length (fh_Data file)), Error = []\<rparr>,
      fs @ [(destPath, File (fh_Data file))]) \<and>
     map_of fs destPath = None \<and> \<not> name_too_long destPath"
proof -
  from ok obtain fs1 where created: "os_Create fs destPath = Some fs1"
    and opened: "fh_OpenOk file" and copied: "fh_CopyErr file = None"
    by (auto simp: store_upload_def upload_failure_def split: if_splits option.splits)
  have absent: "map_of fs destPath = None" by (rule resolve_name_fresh [OF res created])
  from os_Create_fresh [OF absent created]
  have fs1: "fs1 = fs @ [(destPath, File [])]" and fits: "\<not> name_too_long destPath" by simp_all
  from created opened copied absent fits show ?thesis
    unfolding fs1 by (simp add: store_upload_def write_file_last [OF absent])
qed

lemma uploads_dir_clean:
  "Clean uploads_dir = uploads_dir \<and> uploads_dir \<noteq> ''/'' \<and> uploads_dir \<noteq> ''.''"
  by code_simp

text \<open>
  A save that returns leaves every entry that was in the directory before it as it
  was: the name it resolved was not in the directory when it opened it.
\<close>

lemma save_alone_keeps_entries:
  assumes save: "saveUploadedFile dir fs file = Some (r, fs')"
    and old: "os_Stat fs p = Some n"
  shows "os_Stat fs' p = Some n"
proof -
  from save obtain destPath filename
    where res: "resolve_name dir fs (fh_Filename file) = Some (destPath, filename)"
      and st: "store_upload fs destPath filename file = (r, fs')"
    by (auto simp: saveUploadedFile_def split: option.splits)
  show ?thesis
  proof (cases "fh_OpenOk file \<and> os_Create fs destPath \<noteq> None")
    case False
    with st have "fs' = fs" by (auto simp: store_upload_def split: if_splits)
    with old show ?thesis by simp
  next
    case True
    then obtain fs1 where created: "os_Create fs destPath = Some fs1" by blast
    have absent: "map_of fs destPath = None" by (rule resolve_name_fresh [OF res created])
    from os_Create_fresh [OF absent created]
    have fs1: "fs1 = fs @ [(destPath, File [])]" and fits: "\<not> name_too_long destPath"
      by simp_all
    from absent old have ne: "p \<noteq> destPath"
      by (auto simp: os_Stat_def split: if_splits)
    from st True created have "fs' = fs \<or> fs' = fs @ [(destPath, File (fh_Data file))]"
      unfolding fs1
      by (auto simp: store_upload_def write_file_last [OF absent] remove_last [OF absent fits]
          split: option.splits)
    with old show ?thesis by (auto simp: os_Stat_last_other [OF ne])
  qed
qed

subsection \<open>A goroutine running alone\<close>

lemma run_uploads_append:
  "run_uploads dir files (s1 @ s2) pool = run_uploads dir files s2 (run_uploads dir files s1 pool)"
  by (simp add: run_uploads_def)

lemma loop_steps:
  "IsNotExist (os_Stat_error fs (candidate base ext k)) \<Longrightarrow>
   (\<And>j. i \<le> j \<Longrightarrow> j < k \<Longrightarrow> \<not> IsNotExist (os_Stat_error fs (candidate base ext j))) \<Longrightarrow>
   i \<le> k \<Longrightarrow>
   run_uploads dir [file] (replicate (Suc (k - i)) 0) ([InLoop base ext i], [z], fs) =
     ([Named (candidate base ext k) (Base (candidate base ext k))], [z], fs)"
proof (induction "k - i" arbitrary: i)
  case 0
  then have "i = k" by simp
  with "0.prems"(1) "0.hyps" show ?case by (simp add: run_uploads_def save_step_def)
next
  case (Suc n)
  then have lt: "i < k" by simp
  with Suc.prems(2) [of i] have used: "\<not> IsNotExist (os_Stat_error fs (candidate base ext i))"
    by simp
  have "run_uploads dir [file] (replicate (Suc (k - (i + 1))) 0)
          ([InLoop base ext (i + 1)], [z], fs) =
        ([Named (candidate base ext k) (Base (candidate base ext k))], [z], fs)"
  proof (rule Suc.hyps(1))
    show "n = k - (i + 1)" using Suc.hyps(2) by simp
    show "IsNotExist (os_Stat_error fs (candidate base ext k))" by (rule Suc.prems(1))
    show "i + 1 \<le> k" using lt by simp
    fix j assume "i + 1 \<le> j" "j < k"
    then show "\<not> IsNotExist (os_Stat_error fs (candidate base ext j))"
      using Suc.prems(2) [of j] by simp
  qed
  moreover from lt have "Suc (k - i) = Suc (Suc (k - (i + 1)))" by simp
  ultimately show ?case using used by (simp add: run_uploads_def save_step_def)
qed

lemma resolve_steps:
  assumes "resolve_name dir fs (fh_Filename file) = Some (d, f)"
  shows "\<exists>n. run_uploads dir [file] (replicate n 0) ([AtStart], [z], fs) = ([Named d f], [z], fs)"
proof (cases "os_Stat fs (Join dir (Base (fh_Filename file))) = None")
  case True
  with assms have "run_uploads dir [file] (replicate 1 0) ([AtStart], [z], fs) =
      ([Named d f], [z], fs)"
    by (auto simp: resolve_name_def Let_def run_uploads_def save_step_def)
  then show ?thesis by blast
next
  case False
  let ?dest = "Join dir (Base (fh_Filename file))"
  let ?base = "take (length ?dest - length (Ext ?dest)) ?dest"
  from False assms have loop: "dup_loop fs ?base (Ext ?dest) 1 = Some d" and f: "f = Base d"
    by (auto simp: resolve_name_def Let_def split: option.splits)
  from dup_loop_Some [OF loop] obtain k where k: "1 \<le> k" "d = candidate ?base (Ext ?dest) k"
    "IsNotExist (os_Stat_error fs (candidate ?base (Ext ?dest) k))"
    "\<forall>j. 1 \<le> j \<and> j < k \<longrightarrow> \<not> IsNotExist (os_Stat_error fs (candidate ?base (Ext ?dest) j))"
    by blast
  have first: "run_uploads dir [file] [0] ([AtStart], [z], fs) =
      ([InLoop ?base (Ext ?dest) 1], [z], fs)"
    using False by (simp add: run_uploads_def save_step_def Let_def)
  have "run_uploads dir [file] (replicate (Suc (k - 1)) 0) ([InLoop ?base (Ext ?dest) 1], [z], fs) =
      ([Named d f], [z], fs)"
    unfolding f k(2) using k(3) _ k(1) by (rule loop_steps) (use k(4) in simp)
  with first have "run_uploads dir [file] ([0] @ replicate (Suc (k - 1)) 0) ([AtStart], [z], fs) =
      ([Named d f], [z], fs)"
    by (simp only: run_uploads_append)
  moreover have "[0] @ replicate (Suc (k - 1)) 0 = replicate (Suc (Suc (k - 1))) (0::nat)"
    by simp
  ultimately show ?thesis by metis
qed

lemma store_steps:
  "run_uploads dir [file] (replicate 4 0) ([Named d f], [z], fs) =
     ([Joined (fst (store_upload fs d f file))], [fst (store_upload fs d f file)],
      snd (store_upload fs d f file))"
  by (simp add: numeral_eq_Suc run_uploads_def save_step_def store_upload_def
      split: option.splits)

text \<open>
  The goroutine of a batch of one part, running alone, does what
  \<^verbatim>\<open>saveUploadedFile\<close> does: when the save returns, enough steps bring the batch to
  its end with the same result and the same directory.
\<close>

lemma single_part_batch:
  assumes "saveUploadedFile dir fs file = Some (r, fs')"
  shows "\<exists>n. handleUploadMultiple dir fs (Some [file]) (replicate n 0) =
     Some (UploadReport (failed (upload_summary 1 [r]) = 0) [r] (upload_summary 1 [r]), fs')"
proof -
  from assms obtain d f where res: "resolve_name dir fs (fh_Filename file) = Some (d, f)"
    and st: "store_upload fs d f file = (r, fs')"
    by (auto simp: saveUploadedFile_def split: option.splits)
  from resolve_steps [OF res, of "upload_failure [] []"] obtain n
    where "run_uploads dir [file] (replicate n 0) ([AtStart], [upload_failure [] []], fs) =
      ([Named d f], [upload_failure [] []], fs)"
    by blast
  moreover have "run_uploads dir [file] (replicate 4 0) ([Named d f], [upload_failure [] []], fs) =
      ([Joined r], [r], fs')"
    by (simp only: store_steps st fst_conv snd_conv)
  ultimately have "run_uploads dir [file] (replicate n 0 @ replicate 4 0)
          ([AtStart], [upload_failure [] []], fs) = ([Joined r], [r], fs')"
    by (simp only: run_uploads_append)
  then have "run_uploads dir [file] (replicate (n + 4) 0)
          ([AtStart], [upload_failure [] []], fs) = ([Joined r], [r], fs')"
    by (simp only: replicate_add)
  then have "handleUploadMultiple dir fs (Some [file]) (replicate (n + 4) 0) =
     Some (UploadReport (failed (upload_summary 1 [r]) = 0) [r] (upload_summary 1 [r]), fs')"
    by (simp add: handleUploadMultiple_def is_Joined_def)
  then show ?thesis by blast
qed

subsection \<open>Path containment on deletion\<close>

text \<open>
  Claim C1 (a name whose joined and cleaned path lies outside the shared directory is
  refused before any file system call). The check of the handlers is
  \<^verbatim>\<open>strings.HasPrefix(filePath, UploadsDir)\<close>, a comparison of bytes and not of path
  elements. In a batch deletion the name \<^verbatim>\<open>../uploads_old/x\<close> resolves to a file in
  the directory \<^verbatim>\<open>uploads_old\<close> beside the shared directory \<^verbatim>\<open>uploads\<close>; the path
  starts with the bytes of the shared directory, the check passes, \<^verbatim>\<open>os.Remove\<close>
  runs and the file is gone, reported as a success.
\<close>

theorem batch_delete_passes_prefix_check_outside:
  "Join uploads_dir (Clean ''../uploads_old/x'') = ''/home/u/.flashare/uploads_old/x'' \<and>
   parent_dir ''/home/u/.flashare/uploads_old/x'' = ''/home/u/.flashare/uploads_old'' \<and>
   HasPrefix ''/home/u/.flashare/uploads_old/x'' uploads_dir \<and>
   os_Stat backup_fs ''/home/u/.flashare/uploads_old/x'' = Some (File [1, 2, 3]) \<and>
   handleDeleteMultiple uploads_dir backup_fs (Some [''../uploads_old/x'']) [0] =
     (DeleteReport True
        [\<lparr>del_Filename = ''../uploads_old/x'', del_Success = True, del_Error = []\<rparr>]
        \<lparr>del_total = 1, del_successful = 1, del_failed = 0\<rparr>,
      home_fs @ [(''/home/u/.flashare/uploads_old'', Dir)])"
  by code_simp

text \<open>
  A name that climbs out of the data directory altogether does fail the prefix test
  and is refused by all three handlers without a file system call.
\<close>

lemma traversal_is_denied:
  "handleDelete uploads_dir home_fs ''../../etc/passwd'' = (DeleteFailed 403 ''Access denied'', home_fs) \<and>
   handleDownload zstd mime uploads_dir home_fs ''../../etc/passwd'' param =
     DownloadFailed 403 ''Access denied'' \<and>
   delete_task uploads_dir home_fs ''../../etc/passwd'' =
     (\<lparr>del_Filename = ''../../etc/passwd'', del_Success = False, del_Error = ''Access denied''\<rparr>,
      home_fs)"
  by (simp add: handleDelete_def handleDownload_def delete_task_def Let_def) code_simp

subsection \<open>Saving an upload\<close>

text \<open>
  C2 (the destination is opened for exclusive creation, so that a save never
  truncates or overwrites an existing file). The destination is opened with
  \<^verbatim>\<open>os.Create\<close>, which truncates, after the existence checks of the duplicate
  handling (lines 301-312) have chosen a name. In a batch of two parts that are both
  named \<^verbatim>\<open>a.txt\<close> the goroutines interleave: both pass the check of line 302 on a
  directory without \<^verbatim>\<open>a.txt\<close>; the first creates the file and copies its three
  bytes; the open of the second then finds the file, succeeds and empties it. Both
  parts are reported as stored under the name \<^verbatim>\<open>a.txt\<close>, and the directory holds one
  file, with the bytes of the second part. The second and third equation are the
  batch after the first goroutine has returned, when the second has its name and has
  not yet opened it. Run one after the other, the same parts are stored as
  \<^verbatim>\<open>a.txt\<close> and \<^verbatim>\<open>a_1.txt\<close>.
\<close>

theorem same_name_parts_overwrite:
  "handleUploadMultiple uploads_dir home_fs (Some same_name_parts) [0, 1, 0, 0, 0, 1, 1, 1] =
     Some (UploadReport True
             [\<lparr>Success = True, Filename = ''a.txt'', Size = 3, Error = []\<rparr>,
              \<lparr>Success = True, Filename = ''a.txt'', Size = 2, Error = []\<rparr>]
             \<lparr>total = 2, successful = 2, failed = 0, total_size = 5\<rparr>,
           home_fs @ [(''/home/u/.flashare/uploads/a.txt'', File [7, 8])]) \<and>
   fst (run_uploads uploads_dir same_name_parts [0, 1, 0, 0]
          (replicate 2 AtStart, replicate 2 (upload_failure [] []), home_fs)) =
     [Returned \<lparr>Success = True, Filename = ''a.txt'', Size = 3, Error = []\<rparr>,
      Named ''/home/u/.flashare/uploads/a.txt'' ''a.txt''] \<and>
   snd (snd (run_uploads uploads_dir same_name_parts [0, 1, 0, 0]
          (replicate 2 AtStart, replicate 2 (upload_failure [] []), home_fs))) =
     home_fs @ [(''/home/u/.flashare/uploads/a.txt'', File [1, 2, 3])] \<and>
   handleUploadMultiple uploads_dir home_fs (Some same_name_parts) [0, 0, 0, 0, 1, 1, 1, 1, 1] =
     Some (UploadReport True
             [\<lparr>Success = True, Filename = ''a.txt'', Size = 3, Error = []\<rparr>,
              \<lparr>Success = True, Filename = ''a_1.txt'', Size = 2, Error = []\<rparr>]
             \<lparr>total = 2, successful = 2, failed = 0, total_size = 5\<rparr>,
           home_fs @ [(''/home/u/.flashare/uploads/a.txt'', File [1, 2, 3]),
                      (''/home/u/.flashare/uploads/a_1.txt'', File [7, 8])])"
  by code_simp

text \<open>
  Claim C3 (a file uploaded successfully and then downloaded comes back with the same
  bytes). The part named \<^verbatim>\<open>..\<close> is reported as a success under the name
  \<^verbatim>\<open>_1.flashare\<close>, but its bytes are stored in the home directory and not in the
  shared one; a download of the reported name, compressed or not, answers 404.
  (For a part with a plain base name see \<open>upload_then_download\<close> below.)
\<close>

theorem dotdot_upload_cannot_be_downloaded:
  "saveUploadedFile uploads_dir home_fs (upload ''..'' [7, 8]) =
     Some (\<lparr>Success = True, Filename = ''_1.flashare'', Size = 2, Error = []\<rparr>,
           home_fs @ [(''/home/u/_1.flashare'', File [7, 8])]) \<and>
   handleDownload zstd mime uploads_dir (home_fs @ [(''/home/u/_1.flashare'', File [7, 8])])
       ''_1.flashare'' (Some ''false'') = DownloadFailed 404 ''File not found'' \<and>
   handleDownload zstd mime uploads_dir (home_fs @ [(''/home/u/_1.flashare'', File [7, 8])])
       ''_1.flashare'' (Some ''true'') = DownloadFailed 404 ''File not found''"
  by code_simp

text \<open>
  Claim C4 (only the base name is used; a free name is kept, a used one gets the
  suffixes \<^verbatim>\<open>_1\<close>, \<^verbatim>\<open>_2\<close>, ... before its extension). \<^verbatim>\<open>filepath.Base\<close> keeps
  the name \<^verbatim>\<open>..\<close>, and joined with the shared directory it is the data directory.
  That directory exists, so the suffix goes before the extension of the data
  directory's own path: the destination is \<^verbatim>\<open>/home/u/_1.flashare\<close>, outside the
  shared directory, and the reported name is not made from the submitted one.
  (On a plain base name the resolution, when it returns, is the one C4 describes:
  \<open>resolve_name_plain\<close>.)
\<close>

theorem dotdot_name_resolves_outside:
  "Base ''..'' = ''..'' \<and>
   Join uploads_dir ''..'' = ''/home/u/.flashare'' \<and>
   os_Stat home_fs ''/home/u/.flashare'' = Some Dir \<and>
   resolve_name uploads_dir home_fs ''..'' = Some (''/home/u/_1.flashare'', ''_1.flashare'') \<and>
   parent_dir ''/home/u/_1.flashare'' = ''/home/u''"
  by code_simp

text \<open>
  On an ordinary name the resolution is the one C4 describes: three uploads of
  \<^verbatim>\<open>a.txt\<close> in sequence are stored as \<^verbatim>\<open>a.txt\<close>, \<^verbatim>\<open>a_1.txt\<close> and \<^verbatim>\<open>a_2.txt\<close>.
\<close>

lemma sequential_uploads_a_txt:
  "\<exists>r1 fs1 r2 fs2 r3 fs3.
     saveUploadedFile uploads_dir home_fs (upload ''a.txt'' [1]) = Some (r1, fs1) \<and>
     saveUploadedFile uploads_dir fs1 (upload ''a.txt'' [2]) = Some (r2, fs2) \<and>
     saveUploadedFile uploads_dir fs2 (upload ''a.txt'' [3]) = Some (r3, fs3) \<and>
     map Filename [r1, r2, r3] = [''a.txt'', ''a_1.txt'', ''a_2.txt''] \<and>
     fs3 = home_fs @ [(''/home/u/.flashare/uploads/a.txt'', File [1]),
                      (''/home/u/.flashare/uploads/a_1.txt'', File [2]),
                      (''/home/u/.flashare/uploads/a_2.txt'', File [3])]"
proof -
  have 1: "saveUploadedFile uploads_dir home_fs (upload ''a.txt'' [1]) =
    Some (\<lparr>Success = True, Filename = ''a.txt'', Size = 1, Error = []\<rparr>,
          home_fs @ [(''/home/u/.flashare/uploads/a.txt'', File [1])])"
    by code_simp
  have 2: "saveUploadedFile uploads_dir (home_fs @ [(''/home/u/.flashare/uploads/a.txt'', File [1])])
      (upload ''a.txt'' [2]) =
    Some (\<lparr>Success = True, Filename = ''a_1.txt'', Size = 1, Error = []\<rparr>,
          home_fs @ [(''/home/u/.flashare/uploads/a.txt'', File [1]),
                     (''/home/u/.flashare/uploads/a_1.txt'', File [2])])"
    by code_simp
  have 3: "saveUploadedFile uploads_dir (home_fs @ [(''/home/u/.flashare/uploads/a.txt'', File [1]),
                     (''/home/u/.flashare/uploads/a_1.txt'', File [2])])
      (upload ''a.txt'' [3]) =
    Some (\<lparr>Success = True, Filename = ''a_2.txt'', Size = 1, Error = []\<rparr>,
          home_fs @ [(''/home/u/.flashare/uploads/a.txt'', File [1]),
                     (''/home/u/.flashare/uploads/a_1.txt'', File [2]),
                     (''/home/u/.flashare/uploads/a_2.txt'', File [3])])"
    by code_simp
  from 1 2 3 show ?thesis by simp
qed



subsection \<open>Structurally invalid batches\<close>

lemma run_deletes_no_names: "run_deletes dir [] sched fs results = (results, fs)"
  by (induction sched) simp_all

text \<open>
  Claim C9 (an empty list fails the whole request, for upload and for deletion).
  \<^verbatim>\<open>handleUploadMultiple\<close> refuses an empty file list with status 400;
  \<^verbatim>\<open>handleDeleteMultiple\<close> has no such check and answers an empty list of names with
  a successful report of zero deletions.
\<close>

theorem empty_batch_delete_is_accepted:
  "handleDeleteMultiple dir fs (Some []) sched =
     (DeleteReport True [] \<lparr>del_total = 0, del_successful = 0, del_failed = 0\<rparr>, fs) \<and>
   handleUploadMultiple dir fs (Some []) sched = Some (UploadRejected 400 ''No files provided'', fs)"
  by (simp add: handleDeleteMultiple_def handleUploadMultiple_def run_deletes_no_names
      count_successful_def)

text \<open>Both handlers refuse a body that does not parse.\<close>

lemma unparsable_batches_are_rejected:
  "handleUploadMultiple dir fs None sched = Some (UploadRejected 400 ''Invalid form data'', fs) \<and>
   handleDeleteMultiple dir fs None sched = (DeleteRejected 400 ''Invalid request'', fs)"
  by (simp add: handleUploadMultiple_def handleDeleteMultiple_def)

subsection \<open>The summary of a batch upload\<close>















subsection \<open>Outcomes are indexed by input position\<close>







subsection \<open>The listing\<close>

lemma schedule_covers:
  assumes "mset sched = mset [0..<n]"
  shows "set sched = {0..<n}"
  using assms by (metis set_mset_mset set_upt)

lemma set_shift_left: "set (shift_left x ys) = insert x (set ys)"
  by (induction ys) auto

lemma mset_shift_left: "mset (shift_left x ys) = add_mset x (mset ys)"
  by (induction ys) auto

lemma sorted_shift_left:
  "sorted_wrt (\<lambda>a b. Modified a \<le> Modified b) ys \<Longrightarrow>
   sorted_wrt (\<lambda>a b. Modified a \<le> Modified b) (shift_left x ys)"
  by (induction ys) (auto simp: set_shift_left)

lemma insertion_invariant:
  "sorted_wrt (\<lambda>a b. Modified a \<le> Modified b) acc \<Longrightarrow>
   sorted_wrt (\<lambda>a b. Modified a \<le> Modified b) (foldl (\<lambda>acc x. shift_left x acc) acc xs) \<and>
   mset (foldl (\<lambda>acc x. shift_left x acc) acc xs) = mset acc + mset xs"
  by (induction xs arbitrary: acc) (simp_all add: sorted_shift_left mset_shift_left)

lemma insertion_sort_sorted:
  "sorted_wrt (\<lambda>a b. Modified a \<ge> Modified b) (insertion_sort xs)"
  using insertion_invariant [of "[]" xs] by (simp add: insertion_sort_def sorted_wrt_rev)

lemma insertion_sort_mset: "mset (insertion_sort xs) = mset xs"
  using insertion_invariant [of "[]" xs] by (simp add: insertion_sort_def)

lemma insertion_sort_sorts_by_time: "sorts_by_time insertion_sort"
  by (simp add: sorts_by_time_def insertion_sort_sorted insertion_sort_mset)

lemma sort_Slice_sorted:
  "sorts_by_time long_sort \<Longrightarrow>
   sorted_wrt (\<lambda>a b. Modified a \<ge> Modified b) (sort_Slice long_sort xs)"
  by (simp add: sort_Slice_def sorts_by_time_def insertion_sort_sorted)

lemma sort_Slice_mset:
  "sorts_by_time long_sort \<Longrightarrow> mset (sort_Slice long_sort xs) = mset xs"
  by (simp add: sort_Slice_def sorts_by_time_def insertion_sort_mset)

lemma collect_map_filter:
  "set sched \<subseteq> {0..<length es} \<Longrightarrow>
   collect es sched = List.map_filter file_info (map ((!) es) sched)"
  by (induction sched) (auto simp: List.map_filter_simps split: option.splits)

lemma mset_map_filter:
  "mset (List.map_filter f xs) = image_mset (the \<circ> f) (filter_mset (\<lambda>x. f x \<noteq> None) (mset xs))"
  by (simp add: List.map_filter_def)

lemma collect_mset:
  assumes "mset sched = mset [0..<length es]"
  shows "mset (collect es sched) = mset (List.map_filter file_info es)"
proof -
  from assms have "set sched = {0..<length es}" by (rule schedule_covers)
  then have "collect es sched = List.map_filter file_info (map ((!) es) sched)"
    by (intro collect_map_filter) simp
  moreover have "mset (map ((!) es) sched) = mset (map ((!) es) [0..<length es])"
    using assms by (metis mset_map)
  then have "mset (map ((!) es) sched) = mset es" by (simp add: map_nth)
  ultimately show ?thesis by (simp add: mset_map_filter)
qed

text \<open>
  C8, as the code has it. Whatever the order in which the per-entry goroutines
  append, and whatever rearrangement the library's sort of long slices produces
  among those sorted by \<^verbatim>\<open>less\<close>, the listing is sorted by modification time, newest
  first, and holds exactly the records of the entries that are neither directories
  nor dot files and whose \<^verbatim>\<open>Info\<close> succeeds. Nothing is fixed about the order among
  records of equal time.
\<close>

theorem listing_sorted_by_time:
  assumes "sorts_by_time long_sort"
    and "mset sched = mset [0..<length (filter listed entries)]"
  shows "sorted_wrt (\<lambda>a b. Modified a \<ge> Modified b)
           (handleListFiles long_sort (Some entries) sched) \<and>
         mset (handleListFiles long_sort (Some entries) sched) =
           mset (List.map_filter file_info (filter listed entries))"
  using assms by (simp add: handleListFiles_def sort_Slice_sorted sort_Slice_mset collect_mset)

text \<open>The theorem of C8 at a listing with a tie and a hidden file.\<close>

theorem listing_sorted_by_time_witness:
  "sorts_by_time (insertion_sort :: int FileInfo list \<Rightarrow> int FileInfo list) \<and>
   mset [1, 0, 2] = mset [0..<length (filter listed tied_entries)] \<and>
   sorted_wrt (\<lambda>a b. Modified a \<ge> Modified b)
     (handleListFiles insertion_sort (Some tied_entries) [1, 0, 2]) \<and>
   mset (handleListFiles insertion_sort (Some tied_entries) [1, 0, 2]) =
     mset [\<lparr>Name = ''a.txt'', fi_Size = 3, Modified = 1700000000\<rparr>,
           \<lparr>Name = ''b.txt'', fi_Size = 2, Modified = 1700000000\<rparr>,
           \<lparr>Name = ''c.txt'', fi_Size = 5, Modified = 1700000005\<rparr>]"
proof -
  have s: "sorts_by_time (insertion_sort :: int FileInfo list \<Rightarrow> int FileInfo list)"
    by (rule insertion_sort_sorts_by_time)
  have h: "mset [1, 0, 2] = mset [0..<length (filter listed tied_entries)]" by code_simp
  have e: "List.map_filter file_info (filter listed tied_entries) =
     [\<lparr>Name = ''a.txt'', fi_Size = 3, Modified = 1700000000\<rparr>,
      \<lparr>Name = ''b.txt'', fi_Size = 2, Modified = 1700000000\<rparr>,
      \<lparr>Name = ''c.txt'', fi_Size = 5, Modified = 1700000005\<rparr>]"
    by code_simp
  from listing_sorted_by_time [OF s h] s h show ?thesis unfolding e by blast
qed

text \<open>
  C8 as stated (two calls over the same unchanged directory return the same order)
  fails. The slice is filled in the order in which the goroutines reach the append,
  and the sort compares modification times only. With \<^verbatim>\<open>a.txt\<close> and \<^verbatim>\<open>b.txt\<close>
  modified in the same second, the call in which the goroutine of \<^verbatim>\<open>a.txt\<close> appends
  first lists \<^verbatim>\<open>a.txt\<close> before \<^verbatim>\<open>b.txt\<close>, and the call in which it appends second
  lists them the other way round. The slice has three elements, so the sort of long
  slices is not reached.
\<close>

theorem listing_order_depends_on_schedule:
  "mset [0, 1, 2] = mset [0..<length (filter listed tied_entries)] \<and>
   mset [1, 0, 2] = mset [0..<length (filter listed tied_entries)] \<and>
   map Name (handleListFiles insertion_sort (Some tied_entries) [0, 1, 2]) =
     [''c.txt'', ''a.txt'', ''b.txt''] \<and>
   map Name (handleListFiles insertion_sort (Some tied_entries) [1, 0, 2]) =
     [''c.txt'', ''b.txt'', ''a.txt'']"
  by code_simp

subsection \<open>Download and the \<^verbatim>\<open>compressed\<close> parameter\<close>


lemma handleDownload_file:
  assumes "HasPrefix (Join dir (Clean filename)) dir"
    and "os_Stat fs (Join dir (Clean filename)) = Some (File data)"
  shows "handleDownload (Some encode) mime dir fs filename param =
     (if QueryBool param True then
        DownloadBuffered
          [(''Content-Disposition'', ''attachment; filename='' @ [CHR 0x22] @ filename @ [CHR 0x22]),
           (''Content-Encoding'', ''zstd''),
           (''Content-Type'', ''application/octet-stream'')]
          (encode data)
      else
        DownloadStream
          [(''Content-Disposition'', ''attachment; filename='' @ [CHR 0x22] @ filename @ [CHR 0x22]),
           (''Content-Length'', itoa (length data)),
           (''Content-Type'', mime (Ext filename))]
          (File data) True)"
  using assms by (simp add: handleDownload_def Let_def set_header_def node_size_def)




text \<open>
  Upload followed by download, for a part with a plain base name. When the save
  reports success, the compressed download of the reported name delivers the
  compressor's frame of the uploaded bytes. The download with \<^verbatim>\<open>compressed=false\<close>
  registers the stored file, which holds the uploaded bytes, and delivers nothing.
\<close>

lemma upload_then_download:
  assumes clean: "Clean dir = dir" "dir \<noteq> ''/''" "dir \<noteq> ''.''"
    and plain: "Base (fh_Filename file) \<notin> {''.'', ''..'', ''/''}"
    and save: "saveUploadedFile dir fs file = Some (r, fs')"
    and ok: "Success r"
  shows "http_response (handleDownload (Some encode) mime dir fs' (Filename r) None) =
      Body
        [(''Content-Disposition'', ''attachment; filename='' @ [CHR 0x22] @ Filename r @ [CHR 0x22]),
         (''Content-Encoding'', ''zstd''),
         (''Content-Type'', ''application/octet-stream''),
         (''Content-Length'', itoa (length (encode (fh_Data file))))]
        (encode (fh_Data file))"
    and "handleDownload (Some encode) mime dir fs' (Filename r) (Some ''false'') =
      DownloadStream
        [(''Content-Disposition'', ''attachment; filename='' @ [CHR 0x22] @ Filename r @ [CHR 0x22]),
         (''Content-Length'', itoa (length (fh_Data file))),
         (''Content-Type'', mime (Ext (Filename r)))]
        (File (fh_Data file)) True"
    and "http_response (handleDownload (Some encode) mime dir fs' (Filename r) (Some ''false'')) =
      NoResponse"
proof -
  from save obtain destPath filename
    where res: "resolve_name dir fs (fh_Filename file) = Some (destPath, filename)"
      and eq: "store_upload fs destPath filename file = (r, fs')"
    by (auto simp: saveUploadedFile_def split: option.splits)
  with ok have "Success (fst (store_upload fs destPath filename file))" by simp
  from store_upload_success [OF res this] eq
  have r: "Filename r = filename" and fs': "fs' = fs @ [(destPath, File (fh_Data file))]"
    and absent: "map_of fs destPath = None" and fits: "\<not> name_too_long destPath"
    by auto
  from resolve_name_inside [OF clean plain res]
  have dest: "destPath = dir @ ''/'' @ filename" and p: "plain_name filename" by simp_all
  have path: "Join dir (Clean (Filename r)) = destPath"
    using Join_under(2) [OF clean p] dest r by simp
  then have inside: "HasPrefix (Join dir (Clean (Filename r))) dir"
    using dest HasPrefix_append by simp
  have stored: "os_Stat fs' (Join dir (Clean (Filename r))) = Some (File (fh_Data file))"
    unfolding path fs' by (rule os_Stat_last [OF absent fits])
  have f: "\<not> QueryBool (Some ''false'') True" by (simp add: QueryBool_def ParseBool_def)
  have n: "QueryBool None True" by (simp add: QueryBool_def ParseBool_def)
  show "http_response (handleDownload (Some encode) mime dir fs' (Filename r) None) =
      Body
        [(''Content-Disposition'', ''attachment; filename='' @ [CHR 0x22] @ Filename r @ [CHR 0x22]),
         (''Content-Encoding'', ''zstd''),
         (''Content-Type'', ''application/octet-stream''),
         (''Content-Length'', itoa (length (encode (fh_Data file))))]
        (encode (fh_Data file))"
    using n by (simp add: handleDownload_file [OF inside stored] http_response_def set_header_def)
  show raw: "handleDownload (Some encode) mime dir fs' (Filename r) (Some ''false'') =
      DownloadStream
        [(''Content-Disposition'', ''attachment; filename='' @ [CHR 0x22] @ Filename r @ [CHR 0x22]),
         (''Content-Length'', itoa (length (fh_Data file))),
         (''Content-Type'', mime (Ext (Filename r)))]
        (File (fh_Data file)) True"
    using f by (simp add: handleDownload_file [OF inside stored])
  show "http_response (handleDownload (Some encode) mime dir fs' (Filename r) (Some ''false'')) =
      NoResponse"
    unfolding raw by (simp add: http_response_def)
qed

subsection \<open>A name at the limit\<close>

text \<open>
  A name at the limit. The shared directory holds a file whose name has 254 bytes;
  every candidate of the duplicate loop for a second upload of that name is longer
  than \<^verbatim>\<open>NAME_MAX\<close>, \<^verbatim>\<open>os.Stat\<close> fails on each with \<^verbatim>\<open>ENAMETOOLONG\<close>, which is not a
  not-exist error, and the loop goes on for ever: the save does not return, and a
  batch that holds such a part does not return under any schedule.
\<close>

lemma long_name_candidates:
  "name_too_long (candidate (''/home/u/.flashare/uploads/'' @ replicate 250 CHR ''a'') ''.txt'' k)"
proof -
  let ?e = "replicate 250 CHR ''a'' @ ''_'' @ itoa k @ ''.txt''"
  let ?path = "''/home/u/.flashare/uploads'' @ CHR ''/'' # ?e"
  have "CHR ''/'' \<notin> set (itoa k)" using itoa_digits [of k] by auto
  then have nosep: "CHR ''/'' \<notin> set ?e" by simp
  have c: "candidate (''/home/u/.flashare/uploads/'' @ replicate 250 CHR ''a'') ''.txt'' k = ?path"
    by (simp add: candidate_def)
  have "split_path ?path = split_path ''/home/u/.flashare/uploads'' @ [?e]"
    by (rule split_path_append [OF nosep])
  then have mem: "?e \<in> set (split_path ?path)" by (simp only: set_append) simp
  have big: "NAME_MAX < length ?e" using itoa_not_Nil [of k] by (simp add: NAME_MAX_def)
  from mem big have "name_too_long ?path"
    unfolding name_too_long_def list_ex_iff by blast
  then show ?thesis by (simp only: c)
qed

lemma long_name_resolution:
  "Join uploads_dir (Base long_name) = ''/home/u/.flashare/uploads/'' @ long_name \<and>
   os_Stat long_name_fs (''/home/u/.flashare/uploads/'' @ long_name) = Some (File [1]) \<and>
   Ext (''/home/u/.flashare/uploads/'' @ long_name) = ''.txt'' \<and>
   take (length (''/home/u/.flashare/uploads/'' @ long_name) - length ''.txt'')
     (''/home/u/.flashare/uploads/'' @ long_name) =
     ''/home/u/.flashare/uploads/'' @ replicate 250 CHR ''a''"
  by code_simp

lemma long_name_never_saved:
  "saveUploadedFile uploads_dir long_name_fs (upload long_name data) = None"
proof -
  have "dup_loop long_name_fs (''/home/u/.flashare/uploads/'' @ replicate 250 CHR ''a'') ''.txt'' 1
      = None"
    by (rule dup_loop_spins)
      (use long_name_candidates in \<open>simp add: IsNotExist_def os_Stat_error_def\<close>)
  then show ?thesis
    using long_name_resolution
    by (simp add: saveUploadedFile_def resolve_name_def Let_def upload_def)
qed

lemma foldl_invariant:
  "P p \<Longrightarrow> (\<And>p x. P p \<Longrightarrow> P (step p x)) \<Longrightarrow> P (foldl step p xs)"
  by (induction xs arbitrary: p) simp_all

lemma long_name_batch_never_returns:
  "handleUploadMultiple uploads_dir long_name_fs (Some [upload long_name data]) sched = None"
proof -
  let ?base = "''/home/u/.flashare/uploads/'' @ replicate 250 CHR ''a''"
  let ?P = "\<lambda>p. \<exists>t. p = ([t], [upload_failure [] []], long_name_fs) \<and>
      (t = AtStart \<or> (\<exists>i. t = InLoop ?base ''.txt'' i))"
  have step: "?P (pool_step uploads_dir [upload long_name data] idx p)" if "?P p" for p idx
  proof (cases "idx < 1")
    case False
    with that show ?thesis by auto
  next
    case True
    then have idx: "idx = 0" by simp
    from that obtain t where p: "p = ([t], [upload_failure [] []], long_name_fs)"
      and t: "t = AtStart \<or> (\<exists>i. t = InLoop ?base ''.txt'' i)"
      by blast
    from t show ?thesis
    proof
      assume "t = AtStart"
      with p idx long_name_resolution show ?thesis
        by (simp add: save_step_def Let_def upload_def)
    next
      assume "\<exists>i. t = InLoop ?base ''.txt'' i"
      then obtain i where "t = InLoop ?base ''.txt'' i" by blast
      with p idx long_name_candidates [of i] show ?thesis
        by (simp add: save_step_def IsNotExist_def os_Stat_error_def)
    qed
  qed
  have "?P (run_uploads uploads_dir [upload long_name data] sched
              ([AtStart], [upload_failure [] []], long_name_fs))"
    unfolding run_uploads_def by (rule foldl_invariant) (simp, rule step)
  then show ?thesis
    by (auto simp: handleUploadMultiple_def is_Joined_def)
qed

end
